theory Spec2Isabelle
  imports Complex_Main
begin

section \<open>Evaluation driver of the randomly wired network (scripts/eval.py)\<close>

text \<open>
  The script is orchestration code around opaque collaborators (the tensor framework, the
  model, the dataset pipeline, the clock, the logging module). The embedding keeps the
  control flow of \<^verbatim>\<open>main\<close> and \<^verbatim>\<open>infer\<close> as it is written and makes every
  effect explicit:
  \<^item> every call that reaches a collaborator appends an event to a trace, in program order;
  \<^item> the gradient mode of the framework and the number of clock readings taken so far
    are fields of the threaded state;
  \<^item> what a collaborator returns is a field of an environment record (the clock is the
    sequence of its successive readings);
  \<^item> every exception and the process exit are values of a result type.
  Collaborators are taken to return normally. A floating-point value is the rational
  number that it denotes. The values that collaborators compute (times, losses,
  accuracies) are taken as they come; the script's own floating-point arithmetic (line
  112) rounds each result as the platform does; the command-line value
  \<^verbatim>\<open>report_freq\<close> keeps the non-finite values that \<^verbatim>\<open>float\<close> parses. The statements at the level of the
  module (lines 34--41: the name of the experiment directory, the logging handlers) are
  not modelled: the configuration is the one that \<^verbatim>\<open>main\<close> finds.
\<close>

subsection \<open>Errors\<close>

datatype site = SpeedDivision | MeterDivision | ReportModulo

datatype error = SystemExit int | ZeroDivisionError site

definition bind_err :: "error + 'a \<Rightarrow> ('a \<Rightarrow> error + 'b) \<Rightarrow> error + 'b" where
  "bind_err r f = (case r of Inl e \<Rightarrow> Inl e | Inr a \<Rightarrow> f a)"

subsection \<open>Command-line configuration (lines 19--32)\<close>

text \<open>
  A value produced by \<^verbatim>\<open>type=float\<close>: a finite number, an infinity or NaN.
  \<open>Finite 0\<close> stands for both signed zeros, which compare equal. The default of
  \<^verbatim>\<open>report_freq\<close> is the integer 100, kept as it is; the integer modulo and the
  float modulo by 100 agree on whether the remainder is zero.
\<close>

datatype pyfloat = Finite rat | PosInf | NegInf | NaN

record args =
  data :: string
  regime :: bool
  batch_size :: int
  base_channels :: int
  output_channels :: int
  train_flag :: bool
  gpu :: int
  seed :: int
  graph_txt :: string
  save :: string
  epochs :: int
  report_freq :: pyfloat

definition default_args :: args where
  "default_args =
     \<lparr>data = ''/dataset/extract_ILSVRC2012'', regime = True, batch_size = 256,
      base_channels = 78, output_channels = 1280, train_flag = False, gpu = 0, seed = 5,
      graph_txt = ''ws_4_075_conv'', save = ''EXP'', epochs = 250,
      report_freq = Finite 100\<rparr>"

text \<open>\<^verbatim>\<open>bool(s)\<close> on a string: true exactly when the string is not empty.\<close>

definition py_bool :: "string \<Rightarrow> bool" where
  "py_bool s = (s \<noteq> [])"

text \<open>
  An option declared with \<^verbatim>\<open>type=bool\<close>: when the option is absent the default is
  kept as it is, when it is given with the argument \<open>s\<close> the value is \<^verbatim>\<open>bool(s)\<close>.
\<close>

definition parse_bool_option :: "bool \<Rightarrow> string option \<Rightarrow> bool" where
  "parse_bool_option dflt v = (case v of None \<Rightarrow> dflt | Some s \<Rightarrow> py_bool s)"

definition parse_regime :: "string option \<Rightarrow> bool" where
  "parse_regime v = parse_bool_option True v"

definition parse_train_flag :: "string option \<Rightarrow> bool" where
  "parse_train_flag v = parse_bool_option False v"

definition parse_bool_flags :: "string option \<Rightarrow> string option \<Rightarrow> args \<Rightarrow> args" where
  "parse_bool_flags r t a = a\<lparr>regime := parse_regime r, train_flag := parse_train_flag t\<rparr>"

definition NUM_CLASSES :: int where
  "NUM_CLASSES = 1000"

subsection \<open>Events, state and environment\<close>

datatype log_line =
    NoGpuDevice
  | GpuDevice int
  | RegimeLine bool
  | ArgsLine
  | ParamSize
  | FLOPs
  | ValidAcc rat
  | ValidSpeed rat
  | ValidStep nat rat rat rat rat

datatype ('x, 'g) event =
    LoggingInfo log_line
  | NpRandomSeed int
  | CudaSetDevice int
  | CudnnBenchmark bool
  | TorchManualSeed int
  | CudnnEnabled bool
  | CudaManualSeed int
  | ReadGraphInfo string
  | SummaryWriterNew string
  | CriterionCuda
  | RandomlyWiredNNNew int int int bool "'g list"
  | ModelCuda
  | PreprocessImagenet
  | ModelEval
  | InputsCuda
  | TargetsCuda
  | TimeTime nat
  | Forward "'x list" bool
  | LossComputed bool
  | AccuracyComputed bool
  | AddScalar string rat nat
  | WriterClose

record ('x, 'g) world =
  trace :: "('x, 'g) event list"
  clock_reads :: nat
  grad_enabled :: bool

text \<open>
  The state of the process when \<^verbatim>\<open>main\<close> starts: nothing has happened, and the
  framework's gradient mode has its default, enabled; nothing in the script changes it
  outside the \<^verbatim>\<open>with torch.no_grad()\<close> block.
\<close>

definition init_world :: "('x, 'g) world" where
  "init_world = \<lparr>trace = [], clock_reads = 0, grad_enabled = True\<rparr>"

definition emit :: "('x, 'g) event \<Rightarrow> ('x, 'g) world \<Rightarrow> ('x, 'g) world" where
  "emit e w = w\<lparr>trace := trace w @ [e]\<rparr>"

definition emits :: "('x, 'g) event list \<Rightarrow> ('x, 'g) world \<Rightarrow> ('x, 'g) world" where
  "emits es w = w\<lparr>trace := trace w @ es\<rparr>"

type_synonym ('x, 't) batch = "'x list \<times> 't list"

text \<open>
  An arithmetic operation on doubles gives the exact result rounded to a double. The
  rounding of the platform is the field \<open>float_round\<close> of the environment, and nothing is
  assumed about it.
\<close>

record ('x, 't, 'l, 'g) env =
  cuda_is_available :: bool
  float_round :: "rat \<Rightarrow> rat"
  read_graph_info :: "string \<Rightarrow> 'g"
  RandomlyWiredNN :: "int \<Rightarrow> int \<Rightarrow> int \<Rightarrow> bool \<Rightarrow> 'g list \<Rightarrow> 'x list \<Rightarrow> 'l"
  CrossEntropyLoss :: "'l \<Rightarrow> 't list \<Rightarrow> rat"
  accuracy :: "'l \<Rightarrow> 't list \<Rightarrow> rat \<times> rat"
  preprocess_imagenet :: "args \<Rightarrow> ('x, 't) batch list \<times> ('x, 't) batch list"
  time_time :: "nat \<Rightarrow> rat"

text \<open>\<^verbatim>\<open>time.time()\<close>: the next reading of the clock.\<close>

definition time_now ::
  "('x, 't, 'l, 'g) env \<Rightarrow> ('x, 'g) world \<Rightarrow> rat \<times> ('x, 'g) world" where
  "time_now env w =
     (time_time env (clock_reads w),
      emit (TimeTime (clock_reads w)) (w\<lparr>clock_reads := Suc (clock_reads w)\<rparr>))"

subsection \<open>The running meter\<close>

text \<open>
  Modelled from the spec: the class \<^verbatim>\<open>utils.AvgrageMeter\<close> is not among the sources.
  The spec describes it as accumulating a running mean given a value and a sample count,
  weighted by batch size: the meter keeps the weighted sum and the count, and its average
  is their quotient. A quotient by a zero count is Python's division error. The spec
  says nothing of rounding, and the arithmetic of the meter is exact.
\<close>

record meter =
  m_avg :: rat
  m_sum :: rat
  m_cnt :: nat

definition AvgrageMeter :: meter where
  "AvgrageMeter = \<lparr>m_avg = 0, m_sum = 0, m_cnt = 0\<rparr>"

definition update :: "meter \<Rightarrow> rat \<Rightarrow> nat \<Rightarrow> error + meter" where
  "update m val n =
     (let s = m_sum m + val * of_nat n; c = m_cnt m + n
      in if c = 0 then Inl (ZeroDivisionError MeterDivision)
         else Inr \<lparr>m_avg = s / of_nat c, m_sum = s, m_cnt = c\<rparr>)"

text \<open>
  The spec's own words for what a meter shows: the mean of the values weighted by their
  sample counts.
\<close>

definition weighted_mean :: "(rat \<times> nat) list \<Rightarrow> rat" where
  "weighted_mean vns =
     (\<Sum>(v, n) \<leftarrow> vns. v * of_nat n) / of_nat (\<Sum>(v, n) \<leftarrow> vns. n)"

subsection \<open>\<^verbatim>\<open>infer\<close> (lines 94--122)\<close>

record meters =
  objs :: meter
  top1 :: meter
  top5 :: meter
  speed :: meter

text \<open>Lines 106--109: the block under \<^verbatim>\<open>torch.no_grad()\<close>.\<close>

definition no_grad_forward ::
  "('x, 't, 'l, 'g) env \<Rightarrow> ('x list \<Rightarrow> 'l) \<Rightarrow> 'x list \<Rightarrow> ('x, 'g) world
     \<Rightarrow> (rat \<times> 'l \<times> rat) \<times> ('x, 'g) world" where
  "no_grad_forward env model inputs w =
     (let prev = grad_enabled w;
          w1 = w\<lparr>grad_enabled := False\<rparr>;
          (tic, w2) = time_now env w1;
          logits = model inputs;
          w3 = emit (Forward inputs (grad_enabled w2)) w2;
          (toc, w4) = time_now env w3;
          w5 = w4\<lparr>grad_enabled := prev\<rparr>
      in ((tic, logits, toc), w5))"

text \<open>
  Line 112: \<^verbatim>\<open>1.0 * (toc - tic) / n\<close>, three operations on doubles, each rounded:
  the difference, the product by 1.0 and the quotient by \<open>n\<close> (an integer, converted
  without loss). A zero \<open>n\<close> raises.
\<close>

definition per_image_speed ::
  "('x, 't, 'l, 'g) env \<Rightarrow> rat \<Rightarrow> rat \<Rightarrow> nat \<Rightarrow> error + rat" where
  "per_image_speed env tic toc n =
     (if n = 0 then Inl (ZeroDivisionError SpeedDivision)
      else Inr (float_round env
             (float_round env (1 * float_round env (toc - tic)) / of_nat n)))"

text \<open>Lines 114--117: the four updates, in order.\<close>

definition update_meters ::
  "meters \<Rightarrow> rat \<Rightarrow> rat \<Rightarrow> rat \<Rightarrow> rat \<Rightarrow> nat \<Rightarrow> error + meters" where
  "update_meters ms val_loss prec1 prec5 spd n =
     bind_err (update (objs ms) val_loss n) (\<lambda>o'.
     bind_err (update (top1 ms) prec1 n) (\<lambda>t1.
     bind_err (update (top5 ms) prec5 n) (\<lambda>t5.
     bind_err (update (speed ms) spd n) (\<lambda>s'.
       Inr \<lparr>objs = o', top1 = t1, top5 = t5, speed = s'\<rparr>))))"

text \<open>
  Line 119: \<^verbatim>\<open>step % args.report_freq\<close>, an integer modulo a float. The result has
  the sign of the divisor; a zero divisor raises.
\<close>

fun py_mod :: "nat \<Rightarrow> pyfloat \<Rightarrow> error + pyfloat" where
  "py_mod step (Finite w) =
     (if w = 0 then Inl (ZeroDivisionError ReportModulo)
      else Inr (Finite (of_nat step - w * of_int \<lfloor>of_nat step / w\<rfloor>)))"
| "py_mod step PosInf = Inr (Finite (of_nat step))"
| "py_mod step NegInf = Inr (if step = 0 then Finite 0 else NegInf)"
| "py_mod step NaN = Inr NaN"

text \<open>\<^verbatim>\<open>x == 0\<close> on a float.\<close>

fun py_eq_zero :: "pyfloat \<Rightarrow> bool" where
  "py_eq_zero (Finite r) = (r = 0)"
| "py_eq_zero PosInf = False"
| "py_eq_zero NegInf = False"
| "py_eq_zero NaN = False"

definition report_due :: "nat \<Rightarrow> pyfloat \<Rightarrow> error + bool" where
  "report_due step rf = bind_err (py_mod step rf) (\<lambda>r. Inr (py_eq_zero r))"

text \<open>Lines 102--120: the body of the loop, for the batch at index \<open>step\<close>.\<close>

definition infer_batch ::
  "args \<Rightarrow> ('x, 't, 'l, 'g) env \<Rightarrow> ('x list \<Rightarrow> 'l) \<Rightarrow> ('l \<Rightarrow> 't list \<Rightarrow> rat) \<Rightarrow> nat
     \<Rightarrow> ('x, 't) batch \<Rightarrow> meters \<Rightarrow> ('x, 'g) world \<Rightarrow> (error + meters) \<times> ('x, 'g) world" where
  "infer_batch a env model criterion step b ms w =
     (case b of (inputs, targets) \<Rightarrow>
        let n = length inputs;
            w1 = emit InputsCuda w;
            w2 = emit TargetsCuda w1;
            ((tic, logits, toc), w3) = no_grad_forward env model inputs w2;
            val_loss = criterion logits targets;
            w4 = emit (LossComputed (grad_enabled w3)) w3
        in (case per_image_speed env tic toc n of
             Inl e \<Rightarrow> (Inl e, w4)
           | Inr spd \<Rightarrow>
               (let (prec1, prec5) = accuracy env logits targets;
                    w5 = emit (AccuracyComputed (grad_enabled w4)) w4
                in (case update_meters ms val_loss prec1 prec5 spd n of
                      Inl e \<Rightarrow> (Inl e, w5)
                    | Inr ms' \<Rightarrow>
                        (case report_due step (report_freq a) of
                           Inl e \<Rightarrow> (Inl e, w5)
                         | Inr due \<Rightarrow>
                             (Inr ms',
                              if due
                              then emit (LoggingInfo (ValidStep step (m_avg (objs ms'))
                                     (m_avg (top1 ms')) (m_avg (top5 ms')) (m_avg (speed ms')))) w5
                              else w5))))))"

text \<open>Line 101: the loop over \<^verbatim>\<open>enumerate(valid_queue)\<close>.\<close>

fun infer_loop ::
  "args \<Rightarrow> ('x, 't, 'l, 'g) env \<Rightarrow> ('x list \<Rightarrow> 'l) \<Rightarrow> ('l \<Rightarrow> 't list \<Rightarrow> rat) \<Rightarrow> nat
     \<Rightarrow> ('x, 't) batch list \<Rightarrow> meters \<Rightarrow> ('x, 'g) world
     \<Rightarrow> (error + meters) \<times> ('x, 'g) world" where
  "infer_loop a env model criterion step [] ms w = (Inr ms, w)"
| "infer_loop a env model criterion step (b # bs) ms w =
     (case infer_batch a env model criterion step b ms w of
        (Inl e, w') \<Rightarrow> (Inl e, w')
      | (Inr ms', w') \<Rightarrow> infer_loop a env model criterion (Suc step) bs ms' w')"

definition fresh_meters :: meters where
  "fresh_meters =
     \<lparr>objs = AvgrageMeter, top1 = AvgrageMeter, top5 = AvgrageMeter, speed = AvgrageMeter\<rparr>"

text \<open>Lines 95--101: the meters are created, the model is put in evaluation mode, the loop runs.\<close>

definition infer_meters ::
  "args \<Rightarrow> ('x, 't, 'l, 'g) env \<Rightarrow> ('x, 't) batch list \<Rightarrow> ('x list \<Rightarrow> 'l)
     \<Rightarrow> ('l \<Rightarrow> 't list \<Rightarrow> rat) \<Rightarrow> ('x, 'g) world \<Rightarrow> (error + meters) \<times> ('x, 'g) world" where
  "infer_meters a env valid_queue model criterion w =
     infer_loop a env model criterion 0 valid_queue fresh_meters (emit ModelEval w)"

text \<open>Line 122: the value returned.\<close>

definition infer ::
  "args \<Rightarrow> ('x, 't, 'l, 'g) env \<Rightarrow> ('x, 't) batch list \<Rightarrow> ('x list \<Rightarrow> 'l)
     \<Rightarrow> ('l \<Rightarrow> 't list \<Rightarrow> rat) \<Rightarrow> ('x, 'g) world
     \<Rightarrow> (error + rat \<times> rat \<times> rat) \<times> ('x, 'g) world" where
  "infer a env valid_queue model criterion w =
     (case infer_meters a env valid_queue model criterion w of
        (Inl e, w') \<Rightarrow> (Inl e, w')
      | (Inr ms, w') \<Rightarrow> (Inr (m_avg (top1 ms), m_avg (objs ms), m_avg (speed ms)), w'))"

subsection \<open>\<^verbatim>\<open>main\<close> (lines 46--91)\<close>

definition read_graph ::
  "('x, 't, 'l, 'g) env \<Rightarrow> string \<Rightarrow> ('x, 'g) world \<Rightarrow> 'g \<times> ('x, 'g) world" where
  "read_graph env path w = (read_graph_info env path, emit (ReadGraphInfo path) w)"

text \<open>Lines 62--72.\<close>

definition load_graphs ::
  "args \<Rightarrow> ('x, 't, 'l, 'g) env \<Rightarrow> ('x, 'g) world \<Rightarrow> 'g list \<times> ('x, 'g) world" where
  "load_graphs a env w =
     (if regime a then
        let (graph_info_dict3, w1) = read_graph env (graph_txt a @ ''3.txt'') w;
            (graph_info_dict4, w2) = read_graph env (graph_txt a @ ''4.txt'') w1;
            (graph_info_dict5, w3) = read_graph env (graph_txt a @ ''5.txt'') w2
        in ([graph_info_dict3, graph_info_dict4, graph_info_dict5], w3)
      else
        let (graph_info_dict2, w1) = read_graph env (graph_txt a @ ''2.txt'') w;
            (graph_info_dict3, w2) = read_graph env (graph_txt a @ ''3.txt'') w1;
            (graph_info_dict4, w3) = read_graph env (graph_txt a @ ''4.txt'') w2;
            (graph_info_dict5, w4) = read_graph env (graph_txt a @ ''5.txt'') w3
        in ([graph_info_dict2, graph_info_dict3, graph_info_dict4, graph_info_dict5], w4))"

text \<open>Lines 87--90: one iteration of the loop over the epochs.\<close>

definition run_epoch ::
  "args \<Rightarrow> ('x, 't, 'l, 'g) env \<Rightarrow> ('x, 't) batch list \<Rightarrow> ('x list \<Rightarrow> 'l)
     \<Rightarrow> ('l \<Rightarrow> 't list \<Rightarrow> rat) \<Rightarrow> nat \<Rightarrow> ('x, 'g) world \<Rightarrow> (error + unit) \<times> ('x, 'g) world" where
  "run_epoch a env test_queue model criterion epoch w =
     (case infer a env test_queue model criterion w of
        (Inl e, w') \<Rightarrow> (Inl e, w')
      | (Inr (valid_acc, valid_obj, valid_speed), w') \<Rightarrow>
          (Inr (),
           emit (AddScalar ''val_loss'' valid_obj epoch)
             (emit (LoggingInfo (ValidSpeed valid_speed))
                (emit (LoggingInfo (ValidAcc valid_acc)) w'))))"

fun epoch_loop ::
  "args \<Rightarrow> ('x, 't, 'l, 'g) env \<Rightarrow> ('x, 't) batch list \<Rightarrow> ('x list \<Rightarrow> 'l)
     \<Rightarrow> ('l \<Rightarrow> 't list \<Rightarrow> rat) \<Rightarrow> nat list \<Rightarrow> ('x, 'g) world
     \<Rightarrow> (error + unit) \<times> ('x, 'g) world" where
  "epoch_loop a env test_queue model criterion [] w = (Inr (), w)"
| "epoch_loop a env test_queue model criterion (epoch # rest) w =
     (case run_epoch a env test_queue model criterion epoch w of
        (Inl e, w') \<Rightarrow> (Inl e, w')
      | (Inr u, w') \<Rightarrow> epoch_loop a env test_queue model criterion rest w')"

text \<open>Lines 51--59, and lines 74--84 around the construction of the model.\<close>

definition setup_events :: "args \<Rightarrow> ('x, 'g) event list" where
  "setup_events a =
     [NpRandomSeed (seed a), CudaSetDevice (gpu a), CudnnBenchmark True,
      TorchManualSeed (seed a), CudnnEnabled True, CudaManualSeed (seed a),
      LoggingInfo (GpuDevice (gpu a)), LoggingInfo (RegimeLine (regime a)),
      LoggingInfo ArgsLine]"

definition main ::
  "args \<Rightarrow> ('x, 't, 'l, 'g) env \<Rightarrow> (error + unit) \<times> ('x, 'g) world" where
  "main a env =
     (if \<not> cuda_is_available env
      then (Inl (SystemExit 1), emit (LoggingInfo NoGpuDevice) init_world)
      else
        let w1 = emits (setup_events a) init_world;
            (graph_info_dicts, w2) = load_graphs a env w1;
            w3 = emits [SummaryWriterNew (save a), CriterionCuda] w2;
            criterion = CrossEntropyLoss env;
            model = RandomlyWiredNN env (base_channels a) NUM_CLASSES (output_channels a)
                      (regime a) graph_info_dicts;
            w4 = emits [RandomlyWiredNNNew (base_channels a) NUM_CLASSES (output_channels a)
                          (regime a) graph_info_dicts,
                        ModelCuda, LoggingInfo ParamSize, LoggingInfo FLOPs,
                        PreprocessImagenet] w3;
            test_queue = snd (preprocess_imagenet env a)
        in case epoch_loop a env test_queue model criterion [0..<nat (epochs a)] w4 of
             (Inl e, w') \<Rightarrow> (Inl e, w')
           | (Inr u, w') \<Rightarrow> (Inr (), emit WriterClose w'))"

subsection \<open>Observations on traces\<close>

text \<open>The events appended to the trace between two states.\<close>

definition events_since :: "('x, 'g) world \<Rightarrow> ('x, 'g) world \<Rightarrow> ('x, 'g) event list" where
  "events_since w w' = drop (length (trace w)) (trace w')"

text \<open>
  What lines 103--110 append for one batch, when the clock has been read \<open>k\<close> times
  before and the gradient mode around the \<^verbatim>\<open>with\<close> block is \<open>g\<close>.
\<close>

definition batch_prefix :: "nat \<Rightarrow> bool \<Rightarrow> 'x list \<Rightarrow> ('x, 'g) event list" where
  "batch_prefix k g inputs =
     [InputsCuda, TargetsCuda, TimeTime k, Forward inputs False, TimeTime (Suc k),
      LossComputed g]"

text \<open>
  The value of line 112 for a batch of \<open>n\<close> images whose forward pass lies between the
  readings \<open>k\<close> and \<open>k + 1\<close> of the clock.
\<close>

definition speed_of :: "('x, 't, 'l, 'g) env \<Rightarrow> nat \<Rightarrow> nat \<Rightarrow> rat" where
  "speed_of env k n =
     float_round env
       (float_round env (1 * float_round env (time_time env (Suc k) - time_time env k))
          / of_nat n)"

text \<open>The four updates of lines 114--117 with the values that a batch feeds them.\<close>

definition fed_meters ::
  "('x, 't, 'l, 'g) env \<Rightarrow> ('x list \<Rightarrow> 'l) \<Rightarrow> ('l \<Rightarrow> 't list \<Rightarrow> rat) \<Rightarrow> nat
     \<Rightarrow> ('x, 't) batch \<Rightarrow> meters \<Rightarrow> error + meters" where
  "fed_meters env model criterion k b ms =
     update_meters ms (criterion (model (fst b)) (snd b))
       (fst (accuracy env (model (fst b)) (snd b)))
       (snd (accuracy env (model (fst b)) (snd b)))
       (speed_of env k (length (fst b)))
       (length (fst b))"

definition step_line :: "nat \<Rightarrow> meters \<Rightarrow> ('x, 'g) event" where
  "step_line step ms =
     LoggingInfo (ValidStep step (m_avg (objs ms)) (m_avg (top1 ms)) (m_avg (top5 ms))
       (m_avg (speed ms)))"

text \<open>
  The events that the loop over the epochs can append, when the gradient mode at its
  start is \<open>g\<close>: a forward pass only with the mode disabled, a loss or an accuracy
  computation only under the mode \<open>g\<close>.
\<close>

fun loop_event :: "bool \<Rightarrow> ('x, 'g) event \<Rightarrow> bool" where
  "loop_event g ModelEval = True"
| "loop_event g InputsCuda = True"
| "loop_event g TargetsCuda = True"
| "loop_event g (TimeTime k) = True"
| "loop_event g (Forward x m) = (\<not> m)"
| "loop_event g (LossComputed m) = (m = g)"
| "loop_event g (AccuracyComputed m) = (m = g)"
| "loop_event g (AddScalar tag v ep) = True"
| "loop_event g (LoggingInfo l) =
     (case l of ValidStep s l t1 t5 sp \<Rightarrow> True | ValidAcc v \<Rightarrow> True | ValidSpeed v \<Rightarrow> True
      | _ \<Rightarrow> False)"
| "loop_event g _ = False"

text \<open>Forward passes, with their inputs and the gradient mode they ran under.\<close>

fun forward_of :: "('x, 'g) event \<Rightarrow> ('x list \<times> bool) list" where
  "forward_of (Forward x m) = [(x, m)]"
| "forward_of _ = []"

definition forwards :: "('x, 'g) event list \<Rightarrow> ('x list \<times> bool) list" where
  "forwards tr = concat (map forward_of tr)"

text \<open>The gradient modes under which the loss was computed.\<close>

fun loss_mode_of :: "('x, 'g) event \<Rightarrow> bool list" where
  "loss_mode_of (LossComputed m) = [m]"
| "loss_mode_of _ = []"

definition loss_modes :: "('x, 'g) event list \<Rightarrow> bool list" where
  "loss_modes tr = concat (map loss_mode_of tr)"

text \<open>A tensor computation that ran with gradients enabled.\<close>

fun with_grad :: "('x, 'g) event \<Rightarrow> bool" where
  "with_grad (Forward x m) = m"
| "with_grad (LossComputed m) = m"
| "with_grad (AccuracyComputed m) = m"
| "with_grad _ = False"

text \<open>The files read, and the arguments of the model's constructor.\<close>

fun graph_read_of :: "('x, 'g) event \<Rightarrow> string list" where
  "graph_read_of (ReadGraphInfo path) = [path]"
| "graph_read_of _ = []"

definition graph_reads :: "('x, 'g) event list \<Rightarrow> string list" where
  "graph_reads tr = concat (map graph_read_of tr)"

fun model_init_of :: "('x, 'g) event \<Rightarrow> (int \<times> int \<times> int \<times> bool \<times> 'g list) list" where
  "model_init_of (RandomlyWiredNNNew c k oc r gs) = [(c, k, oc, r, gs)]"
| "model_init_of _ = []"

definition model_inits :: "('x, 'g) event list \<Rightarrow> (int \<times> int \<times> int \<times> bool \<times> 'g list) list" where
  "model_inits tr = concat (map model_init_of tr)"

text \<open>The steps of the progress lines, and the top-5 averages they show.\<close>

fun logged_step_of :: "('x, 'g) event \<Rightarrow> nat list" where
  "logged_step_of (LoggingInfo (ValidStep s l t1 t5 sp)) = [s]"
| "logged_step_of _ = []"

definition logged_steps :: "('x, 'g) event list \<Rightarrow> nat list" where
  "logged_steps tr = concat (map logged_step_of tr)"

fun top5_report_of :: "('x, 'g) event \<Rightarrow> rat list" where
  "top5_report_of (LoggingInfo (ValidStep s l t1 t5 sp)) = [t5]"
| "top5_report_of _ = []"

definition top5_reports :: "('x, 'g) event list \<Rightarrow> rat list" where
  "top5_reports tr = concat (map top5_report_of tr)"

text \<open>What \<^verbatim>\<open>main\<close> reports for an epoch.\<close>

fun valid_acc_of :: "('x, 'g) event \<Rightarrow> rat list" where
  "valid_acc_of (LoggingInfo (ValidAcc v)) = [v]"
| "valid_acc_of _ = []"

definition valid_accs :: "('x, 'g) event list \<Rightarrow> rat list" where
  "valid_accs tr = concat (map valid_acc_of tr)"

fun valid_speed_of :: "('x, 'g) event \<Rightarrow> rat list" where
  "valid_speed_of (LoggingInfo (ValidSpeed v)) = [v]"
| "valid_speed_of _ = []"

definition valid_speeds :: "('x, 'g) event list \<Rightarrow> rat list" where
  "valid_speeds tr = concat (map valid_speed_of tr)"

text \<open>The value/count pairs that \<^verbatim>\<open>infer\<close> feeds to its four meters.\<close>

definition loss_fed ::
  "('x list \<Rightarrow> 'l) \<Rightarrow> ('l \<Rightarrow> 't list \<Rightarrow> rat) \<Rightarrow> ('x, 't) batch list \<Rightarrow> (rat \<times> nat) list" where
  "loss_fed model criterion q = map (\<lambda>b. (criterion (model (fst b)) (snd b), length (fst b))) q"

definition top1_fed ::
  "('x, 't, 'l, 'g) env \<Rightarrow> ('x list \<Rightarrow> 'l) \<Rightarrow> ('x, 't) batch list \<Rightarrow> (rat \<times> nat) list" where
  "top1_fed env model q =
     map (\<lambda>b. (fst (accuracy env (model (fst b)) (snd b)), length (fst b))) q"

definition top5_fed ::
  "('x, 't, 'l, 'g) env \<Rightarrow> ('x list \<Rightarrow> 'l) \<Rightarrow> ('x, 't) batch list \<Rightarrow> (rat \<times> nat) list" where
  "top5_fed env model q =
     map (\<lambda>b. (snd (accuracy env (model (fst b)) (snd b)), length (fst b))) q"

fun speed_fed ::
  "('x, 't, 'l, 'g) env \<Rightarrow> nat \<Rightarrow> ('x, 't) batch list \<Rightarrow> (rat \<times> nat) list" where
  "speed_fed env k [] = []"
| "speed_fed env k (b # bs) =
     (speed_of env k (length (fst b)), length (fst b)) # speed_fed env (Suc (Suc k)) bs"

text \<open>The files that lines 62--72 name, the model that line 78 builds, and the state in which
  the loop over the epochs starts.\<close>

definition graph_files :: "args \<Rightarrow> string list" where
  "graph_files a =
     (if regime a
      then [graph_txt a @ ''3.txt'', graph_txt a @ ''4.txt'', graph_txt a @ ''5.txt'']
      else [graph_txt a @ ''2.txt'', graph_txt a @ ''3.txt'', graph_txt a @ ''4.txt'',
            graph_txt a @ ''5.txt''])"

definition main_model :: "args \<Rightarrow> ('x, 't, 'l, 'g) env \<Rightarrow> 'x list \<Rightarrow> 'l" where
  "main_model a env =
     RandomlyWiredNN env (base_channels a) NUM_CLASSES (output_channels a) (regime a)
       (map (read_graph_info env) (graph_files a))"

definition main_start :: "args \<Rightarrow> ('x, 't, 'l, 'g) env \<Rightarrow> ('x, 'g) world" where
  "main_start a env =
     \<lparr>trace = setup_events a @ map ReadGraphInfo (graph_files a)
        @ [SummaryWriterNew (save a), CriterionCuda,
           RandomlyWiredNNNew (base_channels a) NUM_CLASSES (output_channels a) (regime a)
             (map (read_graph_info env) (graph_files a)),
           ModelCuda, LoggingInfo ParamSize, LoggingInfo FLOPs, PreprocessImagenet],
      clock_reads = 0, grad_enabled = True\<rparr>"

text \<open>
  A meter \<open>m'\<close> is the meter \<open>m\<close> after the value/count pairs \<open>vns\<close> have been fed to
  it, in terms of its fields.
\<close>

definition fed :: "meter \<Rightarrow> (rat \<times> nat) list \<Rightarrow> meter \<Rightarrow> bool" where
  "fed m vns m' \<longleftrightarrow>
     (if vns = [] then m' = m
      else m_sum m' = m_sum m + (\<Sum>(v, n) \<leftarrow> vns. v * of_nat n)
         \<and> m_cnt m' = m_cnt m + (\<Sum>(v, n) \<leftarrow> vns. n)
         \<and> m_avg m' = m_sum m' / of_nat (m_cnt m'))"

text \<open>
  The outline of the loop over the epochs: the calls of \<^verbatim>\<open>infer\<close> (each puts the
  model in evaluation mode once), and the two lines logged and the scalar written per
  epoch, with their values.
\<close>

datatype mark = InferCall | AccLine rat | SpeedLine rat | ScalarWritten string rat nat

fun mark_of :: "('x, 'g) event \<Rightarrow> mark list" where
  "mark_of ModelEval = [InferCall]"
| "mark_of (LoggingInfo (ValidAcc v)) = [AccLine v]"
| "mark_of (LoggingInfo (ValidSpeed v)) = [SpeedLine v]"
| "mark_of (AddScalar tag v ep) = [ScalarWritten tag v ep]"
| "mark_of _ = []"

definition outline :: "('x, 'g) event list \<Rightarrow> mark list" where
  "outline tr = concat (map mark_of tr)"

text \<open>
  What a pass over the queue \<open>q\<close> that starts after \<open>k\<close> readings of the clock yields,
  in the order of line 122: the means of the top-1 accuracy, of the loss and of the
  per-image speed, weighted by batch size; on an empty queue the initial averages of the
  meters.
\<close>

definition pass_means ::
  "('x, 't, 'l, 'g) env \<Rightarrow> ('x list \<Rightarrow> 'l) \<Rightarrow> ('l \<Rightarrow> 't list \<Rightarrow> rat) \<Rightarrow> nat
     \<Rightarrow> ('x, 't) batch list \<Rightarrow> rat \<times> rat \<times> rat" where
  "pass_means env model criterion k q =
     (if q = [] then (0, 0, 0)
      else (weighted_mean (top1_fed env model q), weighted_mean (loss_fed model criterion q),
            weighted_mean (speed_fed env k q)))"

text \<open>
  The outline of the epoch number \<open>ep\<close> of a run whose epochs all complete: each pass
  reads the clock twice for each batch.
\<close>

definition epoch_marks ::
  "('x, 't, 'l, 'g) env \<Rightarrow> ('x list \<Rightarrow> 'l) \<Rightarrow> ('l \<Rightarrow> 't list \<Rightarrow> rat)
     \<Rightarrow> ('x, 't) batch list \<Rightarrow> nat \<Rightarrow> mark list" where
  "epoch_marks env model criterion q ep =
     (case pass_means env model criterion (2 * length q * ep) q of
        (valid_acc, valid_obj, valid_speed) \<Rightarrow>
          [InferCall, AccLine valid_acc, SpeedLine valid_speed,
           ScalarWritten ''val_loss'' valid_obj ep])"

subsection \<open>A concrete run\<close>

text \<open>
  The rounding of IEEE 754 doubles, to the nearest double and to the even one of two
  nearest, for values in the normal range (neither overflow nor subnormal results): the
  magnitude is scaled by powers of two into the interval from \<open>2\<^sup>5\<^sup>2\<close> to \<open>2\<^sup>5\<^sup>3\<close>, rounded to
  an integer and scaled back.
\<close>

definition round_half_even :: "rat \<Rightarrow> int" where
  "round_half_even y =
     (let f = \<lfloor>y\<rfloor>; d = y - of_int f
      in if d < 1 / 2 then f else if 1 / 2 < d then f + 1 else if even f then f else f + 1)"

fun normalize :: "nat \<Rightarrow> rat \<Rightarrow> int \<Rightarrow> rat \<times> int" where
  "normalize fuel y k =
     (if fuel = 0 then (y, k)
      else if y < 2 ^ 52 then normalize (fuel - 1) (y * 2) (k - 1)
      else if 2 ^ 53 \<le> y then normalize (fuel - 1) (y / 2) (k + 1)
      else (y, k))"

declare normalize.simps [simp del]

definition round_double :: "rat \<Rightarrow> rat" where
  "round_double x =
     (if x = 0 then 0
      else let (y, k) = normalize 2200 \<bar>x\<bar> 0; m = of_int (round_half_even y)
           in sgn x * (if 0 \<le> k then m * 2 ^ nat k else m / 2 ^ nat (- k)))"

text \<open>
  Two batches, of two images and of one image. The model sums its inputs, the loss is a
  quarter of the logits, the accuracies are the sum of the targets and its double, a graph
  file's content is its path, the \<open>k\<close>-th reading of the clock is \<open>k\<^sup>2 / 8\<close>, and
  doubles are rounded as IEEE 754 does.
\<close>

definition demo_queue :: "(nat, nat) batch list" where
  "demo_queue = [([1, 2], [10, 20]), ([3], [40])]"

definition demo_env :: "(nat, nat, nat, string) env" where
  "demo_env =
     \<lparr>cuda_is_available = True,
      float_round = round_double,
      read_graph_info = (\<lambda>path. path),
      RandomlyWiredNN = (\<lambda>c k oc r gs xs. sum_list xs),
      CrossEntropyLoss = (\<lambda>l t. of_nat l / 4),
      accuracy = (\<lambda>l t. (of_nat (sum_list t), 2 * of_nat (sum_list t))),
      preprocess_imagenet = (\<lambda>a. ([], demo_queue)),
      time_time = (\<lambda>k. of_nat (k * k) / 8)\<rparr>"

definition no_gpu_env :: "(nat, nat, nat, string) env" where
  "no_gpu_env = demo_env\<lparr>cuda_is_available := False\<rparr>"

definition demo_model :: "nat list \<Rightarrow> nat" where
  "demo_model = RandomlyWiredNN demo_env 78 1000 1280 True []"

definition one_epoch_args :: args where
  "one_epoch_args = default_args\<lparr>epochs := 1\<rparr>"

definition two_epoch_args :: args where
  "two_epoch_args = default_args\<lparr>epochs := 2\<rparr>"

definition nan_freq_args :: args where
  "nan_freq_args = default_args\<lparr>epochs := 1, report_freq := NaN\<rparr>"

definition zero_freq_args :: args where
  "zero_freq_args = default_args\<lparr>epochs := 1, report_freq := Finite 0\<rparr>"

definition zero_freq_two_epoch_args :: args where
  "zero_freq_two_epoch_args = default_args\<lparr>epochs := 2, report_freq := Finite 0\<rparr>"

text \<open>A clock that advances by one second between two readings.\<close>

definition unit_clock_env :: "(nat, nat, nat, string) env" where
  "unit_clock_env = demo_env\<lparr>time_time := (\<lambda>k. 1700000000 + of_nat k)\<rparr>"

section \<open>Properties\<close>

subsection \<open>One batch\<close>

lemma update_pos:
  "0 < n \<Longrightarrow>
   update m v n =
     Inr \<lparr>m_avg = (m_sum m + v * of_nat n) / of_nat (m_cnt m + n),
          m_sum = m_sum m + v * of_nat n, m_cnt = m_cnt m + n\<rparr>"
  by (simp add: update_def Let_def)

lemma no_grad_forward_eq:
  "no_grad_forward env model inputs w =
     ((time_time env (clock_reads w), model inputs, time_time env (Suc (clock_reads w))),
      w\<lparr>trace := trace w @ [TimeTime (clock_reads w), Forward inputs False,
                              TimeTime (Suc (clock_reads w))],
        clock_reads := Suc (Suc (clock_reads w))\<rparr>)"
  by (simp add: no_grad_forward_def time_now_def emit_def Let_def)

lemma infer_batch_empty:
  "infer_batch a env model criterion step ([], targets) ms w =
     (Inl (ZeroDivisionError SpeedDivision),
      w\<lparr>trace := trace w @ batch_prefix (clock_reads w) (grad_enabled w) [],
        clock_reads := Suc (Suc (clock_reads w))\<rparr>)"
  by (simp add: infer_batch_def no_grad_forward_eq per_image_speed_def emit_def
      batch_prefix_def Let_def)

lemma infer_batch_nonempty:
  assumes "fst b \<noteq> []"
  shows "infer_batch a env model criterion step b ms w =
     (let w4 = w\<lparr>trace := trace w @ batch_prefix (clock_reads w) (grad_enabled w) (fst b),
                 clock_reads := Suc (Suc (clock_reads w))\<rparr>;
          w5 = emit (AccuracyComputed (grad_enabled w)) w4
      in case fed_meters env model criterion (clock_reads w) b ms of
           Inl e \<Rightarrow> (Inl e, w5)
         | Inr ms' \<Rightarrow>
            (case report_due step (report_freq a) of
               Inl e \<Rightarrow> (Inl e, w5)
             | Inr due \<Rightarrow> (Inr ms', if due then emit (step_line step ms') w5 else w5)))"
  using assms
  by (cases b) (simp add: infer_batch_def no_grad_forward_eq per_image_speed_def emit_def
      batch_prefix_def fed_meters_def speed_of_def step_line_def Let_def split_def
      split: sum.split)

lemma update_meters_pos:
  "0 < n \<Longrightarrow> \<exists>ms'. update_meters ms l p1 p5 s n = Inr ms'"
  by (simp add: update_meters_def bind_err_def update_pos)

lemma fed_meters_ok: "fst b \<noteq> [] \<Longrightarrow> \<exists>ms'. fed_meters env model criterion k b ms = Inr ms'"
  by (simp add: fed_meters_def update_meters_pos)

lemma infer_batch_events:
  "\<exists>es. trace (snd (infer_batch a env model criterion step b ms w)) = trace w @ es
        \<and> list_all (loop_event (grad_enabled w)) es"
proof (cases "fst b = []")
  case True
  then obtain t where "b = ([], t)" by (cases b) auto
  then show ?thesis by (simp add: infer_batch_empty batch_prefix_def)
next
  case False
  then show ?thesis
    by (simp add: infer_batch_nonempty Let_def emit_def batch_prefix_def step_line_def
        split: sum.split)
qed

lemma infer_batch_state:
  "grad_enabled (snd (infer_batch a env model criterion step b ms w)) = grad_enabled w
   \<and> clock_reads (snd (infer_batch a env model criterion step b ms w)) = Suc (Suc (clock_reads w))"
proof (cases "fst b = []")
  case True
  then obtain t where "b = ([], t)" by (cases b) auto
  then show ?thesis by (simp add: infer_batch_empty)
next
  case False
  then show ?thesis
    by (simp add: infer_batch_nonempty Let_def emit_def split: sum.split)
qed

subsection \<open>The kinds of events of the loops\<close>

lemma infer_loop_events:
  "\<exists>es. trace (snd (infer_loop a env model criterion step q ms w)) = trace w @ es
        \<and> list_all (loop_event (grad_enabled w)) es"
proof (induction q arbitrary: step ms w)
  case Nil
  show ?case by simp
next
  case (Cons b q)
  obtain r w1 where b: "infer_batch a env model criterion step b ms w = (r, w1)"
    by (cases "infer_batch a env model criterion step b ms w")
  from infer_batch_events [of a env model criterion step b ms w] b
  obtain es1 where es1: "trace w1 = trace w @ es1" "list_all (loop_event (grad_enabled w)) es1"
    by auto
  from infer_batch_state [of a env model criterion step b ms w] b
  have g: "grad_enabled w1 = grad_enabled w" by simp
  show ?case
  proof (cases r)
    case (Inl e)
    with b es1 show ?thesis by simp
  next
    case (Inr ms1)
    from Cons.IH [of "Suc step" ms1 w1] g
    obtain es2 where
      "trace (snd (infer_loop a env model criterion (Suc step) q ms1 w1)) = trace w1 @ es2"
      "list_all (loop_event (grad_enabled w)) es2" by auto
    with Inr b es1 show ?thesis by simp
  qed
qed

lemma infer_loop_grad:
  "grad_enabled (snd (infer_loop a env model criterion step q ms w)) = grad_enabled w"
proof (induction q arbitrary: step ms w)
  case Nil
  show ?case by simp
next
  case (Cons b q)
  obtain r w1 where b: "infer_batch a env model criterion step b ms w = (r, w1)"
    by (cases "infer_batch a env model criterion step b ms w")
  from infer_batch_state [of a env model criterion step b ms w] b
  have g: "grad_enabled w1 = grad_enabled w" by simp
  show ?case using b g Cons.IH [of "Suc step" _ w1] by (cases r) simp_all
qed

subsection \<open>The process exits only without a GPU\<close>

lemma update_no_exit: "update m v n \<noteq> Inl (SystemExit c)"
  by (simp add: update_def Let_def)

lemma update_meters_no_exit: "update_meters ms l p1 p5 s n \<noteq> Inl (SystemExit c)"
  using update_no_exit by (auto simp: update_meters_def bind_err_def split: sum.splits)

lemma report_due_no_exit: "report_due step rf \<noteq> Inl (SystemExit c)"
  by (cases rf) (simp_all add: report_due_def bind_err_def)

lemma infer_batch_no_exit:
  "fst (infer_batch a env model criterion step b ms w) \<noteq> Inl (SystemExit c)"
proof (cases "fst b = []")
  case True
  then obtain t where "b = ([], t)" by (cases b) auto
  then show ?thesis by (simp add: infer_batch_empty)
next
  case False
  then show ?thesis
    using update_meters_no_exit report_due_no_exit
    by (auto simp: infer_batch_nonempty fed_meters_def Let_def split: sum.splits)
qed

lemma infer_loop_no_exit:
  "fst (infer_loop a env model criterion step q ms w) \<noteq> Inl (SystemExit c)"
proof (induction q arbitrary: step ms w)
  case Nil
  show ?case by simp
next
  case (Cons b q)
  show ?case
    using infer_batch_no_exit [of a env model criterion step b ms w c] Cons.IH
    by (auto split: prod.splits sum.splits)
qed

lemma infer_no_exit:
  "fst (infer a env q model criterion w) \<noteq> Inl (SystemExit c)"
  using infer_loop_no_exit [of a env model criterion 0 q fresh_meters "emit ModelEval w" c]
  by (auto simp: infer_def infer_meters_def split: prod.splits sum.splits)

lemma run_epoch_no_exit:
  "fst (run_epoch a env q model criterion epoch w) \<noteq> Inl (SystemExit c)"
  using infer_no_exit [of a env q model criterion w c]
  by (auto simp: run_epoch_def split: prod.splits sum.splits)

lemma epoch_loop_no_exit:
  "fst (epoch_loop a env q model criterion eps w) \<noteq> Inl (SystemExit c)"
proof (induction eps arbitrary: w)
  case Nil
  show ?case by simp
next
  case (Cons ep eps)
  show ?case
    using run_epoch_no_exit [of a env q model criterion ep w c] Cons.IH
    by (auto split: prod.splits sum.splits)
qed

lemma epoch_loop_no_exitD:
  "epoch_loop a env q model criterion eps w = (Inl (SystemExit c), w') \<Longrightarrow> False"
  using epoch_loop_no_exit [of a env q model criterion eps w c] by simp

text \<open>
  C4. Without a GPU, \<^verbatim>\<open>main\<close> logs one message and exits with status 1, and nothing
  else has happened: no graph file is read, no model is built, no inference runs. With a
  GPU, no run of \<^verbatim>\<open>main\<close> ends in an exit: the availability check is the only one.
\<close>

theorem main_no_gpu_exits:
  "(\<not> cuda_is_available env \<longrightarrow>
      main a env = (Inl (SystemExit 1), init_world\<lparr>trace := [LoggingInfo NoGpuDevice]\<rparr>))
   \<and> (cuda_is_available env \<longrightarrow> (\<forall>c. fst (main a env) \<noteq> Inl (SystemExit c)))"
proof (intro conjI impI allI)
  assume "\<not> cuda_is_available env"
  then show "main a env = (Inl (SystemExit 1), init_world\<lparr>trace := [LoggingInfo NoGpuDevice]\<rparr>)"
    by (simp add: main_def emit_def init_world_def)
next
  fix c
  assume "cuda_is_available env"
  then show "fst (main a env) \<noteq> Inl (SystemExit c)"
    by (auto simp: main_def Let_def split: prod.splits sum.splits dest: epoch_loop_no_exitD)
qed

theorem main_no_gpu_exits_witness:
  "\<not> cuda_is_available no_gpu_env
   \<and> main default_args no_gpu_env
       = (Inl (SystemExit 1), init_world\<lparr>trace := [LoggingInfo NoGpuDevice]\<rparr>)
   \<and> cuda_is_available demo_env
   \<and> fst (main default_args demo_env) \<noteq> Inl (SystemExit 1)"
  using main_no_gpu_exits [of no_gpu_env default_args]
    main_no_gpu_exits [of demo_env default_args]
  by (simp add: no_gpu_env_def demo_env_def)

subsection \<open>The trace of \<^verbatim>\<open>main\<close>\<close>

lemma load_graphs_eq:
  "load_graphs a env w =
     (map (read_graph_info env) (graph_files a), emits (map ReadGraphInfo (graph_files a)) w)"
  by (simp add: load_graphs_def read_graph_def graph_files_def emit_def emits_def Let_def)

lemma main_gpu:
  assumes "cuda_is_available env"
  shows "main a env =
     (case epoch_loop a env (snd (preprocess_imagenet env a)) (main_model a env)
             (CrossEntropyLoss env) [0..<nat (epochs a)] (main_start a env) of
        (Inl e, w') \<Rightarrow> (Inl e, w')
      | (Inr u, w') \<Rightarrow> (Inr (), emit WriterClose w'))"
  using assms
  by (simp add: main_def load_graphs_eq main_model_def main_start_def emits_def
      init_world_def Let_def)

lemma infer_events:
  "\<exists>es. trace (snd (infer a env q model criterion w)) = trace w @ es
        \<and> list_all (loop_event (grad_enabled w)) es"
proof -
  from infer_loop_events [of a env model criterion 0 q fresh_meters "emit ModelEval w"]
  obtain es where
    "trace (snd (infer_loop a env model criterion 0 q fresh_meters (emit ModelEval w)))
       = trace (emit ModelEval w) @ es"
    "list_all (loop_event (grad_enabled (emit ModelEval w))) es" by auto
  then show ?thesis
    by (auto simp: infer_def infer_meters_def emit_def split: prod.splits sum.splits)
qed

lemma infer_grad:
  "grad_enabled (snd (infer a env q model criterion w)) = grad_enabled w"
  using infer_loop_grad [of a env model criterion 0 q fresh_meters "emit ModelEval w"]
  by (auto simp: infer_def infer_meters_def emit_def split: prod.splits sum.splits)

lemma run_epoch_events:
  "\<exists>es. trace (snd (run_epoch a env q model criterion epoch w)) = trace w @ es
        \<and> list_all (loop_event (grad_enabled w)) es"
  using infer_events [of a env q model criterion w]
  by (auto simp: run_epoch_def emit_def split: prod.splits sum.splits)

lemma run_epoch_grad:
  "grad_enabled (snd (run_epoch a env q model criterion epoch w)) = grad_enabled w"
  using infer_grad [of a env q model criterion w]
  by (auto simp: run_epoch_def emit_def split: prod.splits sum.splits)

lemma epoch_loop_events:
  "\<exists>es. trace (snd (epoch_loop a env q model criterion eps w)) = trace w @ es
        \<and> list_all (loop_event (grad_enabled w)) es"
proof (induction eps arbitrary: w)
  case Nil
  show ?case by simp
next
  case (Cons ep eps)
  obtain r w1 where r: "run_epoch a env q model criterion ep w = (r, w1)"
    by (cases "run_epoch a env q model criterion ep w")
  from run_epoch_events [of a env q model criterion ep w] r
  obtain es1 where es1: "trace w1 = trace w @ es1" "list_all (loop_event (grad_enabled w)) es1"
    by auto
  from run_epoch_grad [of a env q model criterion ep w] r
  have g: "grad_enabled w1 = grad_enabled w" by simp
  show ?case
  proof (cases r)
    case (Inl e)
    with r es1 show ?thesis by simp
  next
    case (Inr u)
    from Cons.IH [of w1] g
    obtain es2 where "trace (snd (epoch_loop a env q model criterion eps w1)) = trace w1 @ es2"
      "list_all (loop_event (grad_enabled w)) es2" by auto
    with Inr r es1 show ?thesis by simp
  qed
qed

lemma main_gpu_trace:
  assumes "cuda_is_available env"
  shows "\<exists>es tl. trace (snd (main a env)) = trace (main_start a env) @ es @ tl
          \<and> list_all (loop_event True) es \<and> (tl = [] \<or> tl = [WriterClose])"
proof -
  obtain r w' where r: "epoch_loop a env (snd (preprocess_imagenet env a)) (main_model a env)
             (CrossEntropyLoss env) [0..<nat (epochs a)] (main_start a env) = (r, w')"
    by (cases "epoch_loop a env (snd (preprocess_imagenet env a)) (main_model a env)
             (CrossEntropyLoss env) [0..<nat (epochs a)] (main_start a env)")
  from epoch_loop_events [of a env "snd (preprocess_imagenet env a)" "main_model a env"
      "CrossEntropyLoss env" "[0..<nat (epochs a)]" "main_start a env"] r
  obtain es where es: "trace w' = trace (main_start a env) @ es"
    "list_all (loop_event True) es" by (auto simp: main_start_def)
  show ?thesis
  proof (cases r)
    case (Inl e)
    then have "trace (snd (main a env)) = trace (main_start a env) @ es @ []"
      using es r assms by (simp add: main_gpu)
    with es show ?thesis by blast
  next
    case (Inr u)
    then have "trace (snd (main a env)) = trace (main_start a env) @ es @ [WriterClose]"
      using es r assms by (simp add: main_gpu emit_def)
    with es show ?thesis by blast
  qed
qed

lemma loop_event_no_setup:
  "loop_event g e \<Longrightarrow> graph_read_of e = [] \<and> model_init_of e = []"
  by (cases e) simp_all

lemma loop_events_no_setup:
  "list_all (loop_event g) es \<Longrightarrow> graph_reads es = [] \<and> model_inits es = []"
  by (induction es) (auto simp: graph_reads_def model_inits_def dest: loop_event_no_setup)

lemma graph_reads_append: "graph_reads (xs @ ys) = graph_reads xs @ graph_reads ys"
  by (simp add: graph_reads_def)

lemma model_inits_append: "model_inits (xs @ ys) = model_inits xs @ model_inits ys"
  by (simp add: model_inits_def)

lemma graph_reads_map: "graph_reads (map ReadGraphInfo ps) = ps"
  by (induction ps) (simp_all add: graph_reads_def)

lemma model_inits_map: "model_inits (map ReadGraphInfo ps) = []"
  by (induction ps) (simp_all add: model_inits_def)

lemma main_start_setup:
  "graph_reads (trace (main_start a env)) = graph_files a
   \<and> model_inits (trace (main_start a env)) =
       [(base_channels a, NUM_CLASSES, output_channels a, regime a,
         map (read_graph_info env) (graph_files a))]"
proof -
  have 1: "graph_reads (setup_events a :: ('a, 'b) event list) = []"
    "model_inits (setup_events a :: ('a, 'b) event list) = []"
    by (simp_all add: setup_events_def graph_reads_def model_inits_def)
  show ?thesis
    by (simp add: main_start_def graph_reads_append model_inits_append 1 graph_reads_map
        model_inits_map) (simp add: graph_reads_def model_inits_def)
qed

lemma main_setup:
  assumes "cuda_is_available env"
  shows "graph_reads (trace (snd (main a env))) = graph_files a
   \<and> model_inits (trace (snd (main a env))) =
       [(base_channels a, NUM_CLASSES, output_channels a, regime a,
         map (read_graph_info env) (graph_files a))]"
proof -
  from main_gpu_trace [OF assms, of a]
  obtain es tl where t: "trace (snd (main a env)) = trace (main_start a env) @ es @ tl"
    "list_all (loop_event True) es" "tl = [] \<or> tl = [WriterClose]" by blast
  have tl: "graph_reads tl = [] \<and> model_inits tl = []"
    using t(3) by (auto simp: graph_reads_def model_inits_def)
  show ?thesis
    using loop_events_no_setup [OF t(2)] tl main_start_setup [of a env]
    by (simp add: t(1) graph_reads_append model_inits_append)
qed

text \<open>
  C3. With a GPU, the files that \<^verbatim>\<open>main\<close> reads are decided by the regime: in the
  small regime exactly the three files 3, 4 and 5, in the regular regime exactly the four
  files 2 to 5, in this order; and the model is built from what they hold, in the same order.
\<close>

theorem main_graph_files_by_regime:
  assumes "cuda_is_available env"
  shows "graph_reads (trace (snd (main a env))) =
           (if regime a
            then [graph_txt a @ ''3.txt'', graph_txt a @ ''4.txt'', graph_txt a @ ''5.txt'']
            else [graph_txt a @ ''2.txt'', graph_txt a @ ''3.txt'', graph_txt a @ ''4.txt'',
                  graph_txt a @ ''5.txt''])
   \<and> model_inits (trace (snd (main a env))) =
       [(base_channels a, 1000, output_channels a, regime a,
         map (read_graph_info env)
           (if regime a
            then [graph_txt a @ ''3.txt'', graph_txt a @ ''4.txt'', graph_txt a @ ''5.txt'']
            else [graph_txt a @ ''2.txt'', graph_txt a @ ''3.txt'', graph_txt a @ ''4.txt'',
                  graph_txt a @ ''5.txt'']))]"
  using main_setup [OF assms, of a] by (simp add: graph_files_def NUM_CLASSES_def)

theorem main_graph_files_by_regime_witness:
  "cuda_is_available demo_env
   \<and> graph_reads (trace (snd (main default_args demo_env)))
       = [''ws_4_075_conv3.txt'', ''ws_4_075_conv4.txt'', ''ws_4_075_conv5.txt'']
   \<and> graph_reads (trace (snd (main (default_args\<lparr>regime := False\<rparr>) demo_env)))
       = [''ws_4_075_conv2.txt'', ''ws_4_075_conv3.txt'', ''ws_4_075_conv4.txt'',
          ''ws_4_075_conv5.txt'']
   \<and> model_inits (trace (snd (main (default_args\<lparr>regime := False\<rparr>) demo_env)))
       = [(78, 1000, 1280, False,
           [''ws_4_075_conv2.txt'', ''ws_4_075_conv3.txt'', ''ws_4_075_conv4.txt'',
            ''ws_4_075_conv5.txt''])]"
proof -
  have g: "cuda_is_available demo_env" by (simp add: demo_env_def)
  show ?thesis
    using g main_graph_files_by_regime [OF g, of default_args]
      main_graph_files_by_regime [OF g, of "default_args\<lparr>regime := False\<rparr>"]
    by (simp add: default_args_def demo_env_def)
qed

text \<open>
  C9 (amended). An option of type \<^verbatim>\<open>bool\<close> given any non-empty argument is true,
  also for the arguments \<^verbatim>\<open>False\<close> and \<^verbatim>\<open>0\<close>, so that passing
  \<^verbatim>\<open>--regime False\<close> does not select the regular regime; the regime's default is true
  as well. The regime is false exactly when the option is given the empty string as its
  argument: then, and only then, \<^verbatim>\<open>main\<close> reads the four files of the regular regime;
  with the option absent or given a non-empty argument it reads the three files of the
  small regime.
\<close>

theorem regime_false_only_by_empty_argument:
  "(s \<noteq> [] \<longrightarrow> parse_regime (Some s) \<and> parse_train_flag (Some s))
   \<and> parse_regime (Some ''False'') \<and> parse_regime (Some ''0'') \<and> parse_regime None
   \<and> regime (parse_bool_flags r t a) = (r \<noteq> Some [])
   \<and> (cuda_is_available env \<longrightarrow>
        graph_reads (trace (snd (main (parse_bool_flags r t a) env)))
          = (if r = Some []
             then [graph_txt a @ ''2.txt'', graph_txt a @ ''3.txt'', graph_txt a @ ''4.txt'',
                   graph_txt a @ ''5.txt'']
             else [graph_txt a @ ''3.txt'', graph_txt a @ ''4.txt'', graph_txt a @ ''5.txt'']))"
proof -
  have 1: "s \<noteq> [] \<longrightarrow> parse_regime (Some s) \<and> parse_train_flag (Some s)"
    by (simp add: parse_regime_def parse_train_flag_def parse_bool_option_def py_bool_def)
  have 2: "parse_regime (Some ''False'') \<and> parse_regime (Some ''0'') \<and> parse_regime None"
    by (simp add: parse_regime_def parse_bool_option_def py_bool_def)
  have 3: "regime (parse_bool_flags r t a) = (r \<noteq> Some [])"
    by (cases r) (simp_all add: parse_bool_flags_def parse_regime_def parse_bool_option_def
        py_bool_def)
  have gt: "graph_txt (parse_bool_flags r t a) = graph_txt a"
    by (simp add: parse_bool_flags_def)
  have 4: "graph_reads (trace (snd (main (parse_bool_flags r t a) env)))
          = (if r = Some []
             then [graph_txt a @ ''2.txt'', graph_txt a @ ''3.txt'', graph_txt a @ ''4.txt'',
                   graph_txt a @ ''5.txt'']
             else [graph_txt a @ ''3.txt'', graph_txt a @ ''4.txt'', graph_txt a @ ''5.txt''])"
    if g: "cuda_is_available env"
  proof -
    have "graph_files (parse_bool_flags r t a)
          = (if r = Some []
             then [graph_txt a @ ''2.txt'', graph_txt a @ ''3.txt'', graph_txt a @ ''4.txt'',
                   graph_txt a @ ''5.txt'']
             else [graph_txt a @ ''3.txt'', graph_txt a @ ''4.txt'', graph_txt a @ ''5.txt''])"
      unfolding graph_files_def gt 3 by simp
    with main_setup [OF g, of "parse_bool_flags r t a"] show ?thesis by simp
  qed
  from 1 2 3 4 show ?thesis by blast
qed

theorem regime_false_only_by_empty_argument_witness:
  "''False'' \<noteq> [] \<and> parse_regime (Some ''False'') \<and> parse_train_flag (Some ''False'')
   \<and> cuda_is_available demo_env
   \<and> regime (parse_bool_flags (Some ''False'') None default_args)
   \<and> graph_reads (trace (snd (main (parse_bool_flags (Some ''False'') None default_args) demo_env)))
        = [''ws_4_075_conv3.txt'', ''ws_4_075_conv4.txt'', ''ws_4_075_conv5.txt'']
   \<and> regime (parse_bool_flags None None default_args)
   \<and> graph_reads (trace (snd (main (parse_bool_flags None None default_args) demo_env)))
        = [''ws_4_075_conv3.txt'', ''ws_4_075_conv4.txt'', ''ws_4_075_conv5.txt'']"
  using regime_false_only_by_empty_argument
      [of "''False''" "Some ''False''" None default_args demo_env]
    regime_false_only_by_empty_argument [of "''False''" None None default_args demo_env]
  by (simp add: demo_env_def default_args_def)

text \<open>
  The claim as stated fails: the regular regime is reached with the option present, given
  the empty string as its argument, although the default is true; the four files are read.
\<close>

theorem empty_argument_selects_regular_regime:
  "\<not> parse_regime (Some '''')
   \<and> \<not> regime (parse_bool_flags (Some '''') None default_args)
   \<and> graph_reads (trace (snd (main (parse_bool_flags (Some '''') None default_args) demo_env)))
        = [''ws_4_075_conv2.txt'', ''ws_4_075_conv3.txt'', ''ws_4_075_conv4.txt'',
           ''ws_4_075_conv5.txt'']"
proof -
  have r: "\<not> regime (parse_bool_flags (Some '''') None default_args)"
    by (simp add: parse_bool_flags_def parse_regime_def parse_bool_option_def py_bool_def)
  have g: "cuda_is_available demo_env" by (simp add: demo_env_def)
  have gt: "graph_txt (parse_bool_flags (Some '''') None default_args) = ''ws_4_075_conv''"
    by (simp add: parse_bool_flags_def default_args_def)
  from main_setup [OF g, of "parse_bool_flags (Some '''') None default_args"] r gt
  show ?thesis
    by (simp add: graph_files_def parse_regime_def parse_bool_option_def py_bool_def)
qed

subsection \<open>The report condition and the runs without an error\<close>

lemma events_since_append: "trace w' = trace w @ es \<Longrightarrow> events_since w w' = es"
  by (simp add: events_since_def)

lemma forwards_append: "forwards (xs @ ys) = forwards xs @ forwards ys"
  by (simp add: forwards_def)

lemma logged_steps_append: "logged_steps (xs @ ys) = logged_steps xs @ logged_steps ys"
  by (simp add: logged_steps_def)

lemma report_due_zero: "report_due step (Finite 0) = Inl (ZeroDivisionError ReportModulo)"
  by (simp add: report_due_def bind_err_def)

lemma report_due_nonzero: "rf \<noteq> Finite 0 \<Longrightarrow> \<exists>d. report_due step rf = Inr d"
  by (cases rf) (auto simp: report_due_def bind_err_def)

lemma report_due_no_modulo_error:
  "rf \<noteq> Finite 0 \<Longrightarrow> report_due step rf \<noteq> Inl e"
  by (cases rf) (simp_all add: report_due_def bind_err_def)

lemma report_due_first: "rf \<noteq> Finite 0 \<Longrightarrow> rf \<noteq> NaN \<Longrightarrow> report_due 0 rf = Inr True"
  by (cases rf) (simp_all add: report_due_def bind_err_def)

lemma report_due_nan: "report_due step NaN = Inr False"
  by (simp add: report_due_def bind_err_def)

lemma report_due_nat:
  assumes "0 < k"
  shows "report_due step (Finite (of_nat k)) = Inr (step mod k = 0)"
proof -
  have "int step = int k * (int step div int k) + int (step mod k)"
    by (simp add: zmod_int)
  then have "rat_of_int (int step) = rat_of_int (int k * (int step div int k) + int (step mod k))"
    by (rule arg_cong)
  then have "(of_nat step :: rat) - of_nat k * of_int (int step div int k) = of_nat (step mod k)"
    by simp
  then have "(of_nat step :: rat) - of_nat k * of_int \<lfloor>(of_nat step :: rat) / of_nat k\<rfloor>
          = of_nat (step mod k)"
    by (simp add: floor_divide_of_nat_eq of_nat_div)
  then show ?thesis
    using assms by (simp add: report_due_def bind_err_def)
qed

lemma update_error: "update m v n = Inl e \<Longrightarrow> e = ZeroDivisionError MeterDivision"
  by (simp add: update_def Let_def split: if_splits)

lemma update_meters_error:
  "update_meters ms l p1 p5 s n = Inl e \<Longrightarrow> e = ZeroDivisionError MeterDivision"
  by (auto simp: update_meters_def bind_err_def split: sum.splits dest: update_error)

lemma infer_batch_no_modulo_error:
  assumes "report_freq a \<noteq> Finite 0"
  shows "fst (infer_batch a env model criterion step b ms w) \<noteq> Inl (ZeroDivisionError ReportModulo)"
proof (cases "fst b = []")
  case True
  then obtain t where "b = ([], t)" by (cases b) auto
  then show ?thesis by (simp add: infer_batch_empty)
next
  case False
  then show ?thesis
    using report_due_no_modulo_error [OF assms]
    by (auto simp: infer_batch_nonempty fed_meters_def Let_def split: sum.splits
        dest: update_meters_error)
qed

lemma infer_loop_no_modulo_error:
  assumes "report_freq a \<noteq> Finite 0"
  shows "fst (infer_loop a env model criterion step q ms w) \<noteq> Inl (ZeroDivisionError ReportModulo)"
proof (induction q arbitrary: step ms w)
  case Nil
  show ?case by simp
next
  case (Cons b q)
  show ?case
    using infer_batch_no_modulo_error [OF assms, of env model criterion step b ms w] Cons.IH
    by (auto split: prod.splits sum.splits)
qed

lemma infer_batch_ok:
  assumes "fst b \<noteq> []" and "report_freq a \<noteq> Finite 0"
  shows "\<exists>ms'. fst (infer_batch a env model criterion step b ms w) = Inr ms'"
proof -
  from fed_meters_ok [OF assms(1)]
  obtain ms' where 1: "fed_meters env model criterion (clock_reads w) b ms = Inr ms'" by blast
  from report_due_nonzero [OF assms(2)]
  obtain d where 2: "report_due step (report_freq a) = Inr d" by blast
  show ?thesis by (simp add: infer_batch_nonempty [OF assms(1)] 1 2 Let_def)
qed

lemma infer_loop_ok:
  assumes "report_freq a \<noteq> Finite 0"
  shows "\<forall>b\<in>set q. fst b \<noteq> [] \<Longrightarrow>
         \<exists>ms'. fst (infer_loop a env model criterion step q ms w) = Inr ms'"
proof (induction q arbitrary: step ms w)
  case Nil
  show ?case by simp
next
  case (Cons b q)
  then have b: "fst b \<noteq> []" and q: "\<forall>b\<in>set q. fst b \<noteq> []" by simp_all
  from infer_batch_ok [OF b assms, of env model criterion step ms w]
  obtain ms1 where "fst (infer_batch a env model criterion step b ms w) = Inr ms1" by blast
  then show ?case using Cons.IH [OF q] by (auto split: prod.splits sum.splits)
qed

lemma infer_batch_forwards:
  "forwards (trace (snd (infer_batch a env model criterion step b ms w)))
     = forwards (trace w) @ [(fst b, False)]"
proof (cases "fst b = []")
  case True
  then obtain t where "b = ([], t)" by (cases b) auto
  then show ?thesis by (simp add: infer_batch_empty batch_prefix_def forwards_def)
next
  case False
  then show ?thesis
    by (simp add: infer_batch_nonempty Let_def emit_def batch_prefix_def step_line_def
        forwards_def split: sum.split)
qed

lemma infer_batch_logged:
  assumes "fst (infer_batch a env model criterion step b ms w) = Inr ms'"
  shows "logged_steps (trace (snd (infer_batch a env model criterion step b ms w)))
     = logged_steps (trace w) @ (if report_due step (report_freq a) = Inr True then [step] else [])"
proof (cases "fst b = []")
  case True
  then obtain t where "b = ([], t)" by (cases b) auto
  with assms show ?thesis by (simp add: infer_batch_empty)
next
  case False
  with assms show ?thesis
    by (auto simp: infer_batch_nonempty Let_def emit_def batch_prefix_def step_line_def
        logged_steps_def split: sum.splits if_splits)
qed

lemma infer_loop_forwards:
  "fst (infer_loop a env model criterion step q ms w) = Inr ms' \<Longrightarrow>
   forwards (trace (snd (infer_loop a env model criterion step q ms w)))
     = forwards (trace w) @ map (\<lambda>b. (fst b, False)) q"
proof (induction q arbitrary: step ms w)
  case Nil
  show ?case by simp
next
  case (Cons b q)
  obtain r w1 where b: "infer_batch a env model criterion step b ms w = (r, w1)"
    by (cases "infer_batch a env model criterion step b ms w")
  with Cons.prems obtain ms1 where r: "r = Inr ms1" by (cases r) auto
  from infer_batch_forwards [of a env model criterion step b ms w] b
  have f: "forwards (trace w1) = forwards (trace w) @ [(fst b, False)]" by simp
  from Cons.prems b r
  have "fst (infer_loop a env model criterion (Suc step) q ms1 w1) = Inr ms'" by simp
  from Cons.IH [OF this] show ?case using b r f by simp
qed

lemma infer_loop_logged:
  "fst (infer_loop a env model criterion step q ms w) = Inr ms' \<Longrightarrow>
   logged_steps (trace (snd (infer_loop a env model criterion step q ms w)))
     = logged_steps (trace w)
       @ filter (\<lambda>s. report_due s (report_freq a) = Inr True) [step..<step + length q]"
proof (induction q arbitrary: step ms w)
  case Nil
  show ?case by simp
next
  case (Cons b q)
  obtain r w1 where b: "infer_batch a env model criterion step b ms w = (r, w1)"
    by (cases "infer_batch a env model criterion step b ms w")
  with Cons.prems obtain ms1 where r: "r = Inr ms1" by (cases r) auto
  from infer_batch_logged [of a env model criterion step b ms w ms1] b r
  have f: "logged_steps (trace w1) = logged_steps (trace w)
      @ (if report_due step (report_freq a) = Inr True then [step] else [])" by simp
  from Cons.prems b r
  have "fst (infer_loop a env model criterion (Suc step) q ms1 w1) = Inr ms'" by simp
  from Cons.IH [OF this]
  have "logged_steps (trace (snd (infer_loop a env model criterion (Suc step) q ms1 w1)))
     = logged_steps (trace w1)
       @ filter (\<lambda>s. report_due s (report_freq a) = Inr True) [Suc step..<Suc step + length q]" .
  moreover have "[step..<step + length (b # q)] = step # [Suc step..<Suc step + length q]"
    by (simp del: upt_Suc add: upt_conv_Cons)
  ultimately show ?case using b r f by (simp del: upt_Suc)
qed

subsection \<open>The concrete run, evaluated\<close>

lemma floor_rat_numeral: "\<lfloor>(numeral a :: rat) / numeral b\<rfloor> = numeral a div numeral b"
  using floor_divide_of_int_eq [of "numeral a" "numeral b", where ?'a = rat] by simp

lemmas round_defs = round_double_def normalize.simps round_half_even_def Let_def
  floor_rat_numeral

lemma round_vals:
  "round_double (1 / 8) = 1 / 8" "round_double (1 / 16) = 1 / 16"
  "round_double (5 / 8) = 5 / 8" "round_double (9 / 8) = 9 / 8"
  "round_double (9 / 16) = 9 / 16" "round_double (13 / 8) = 13 / 8"
  by (simp_all add: round_defs)

lemma demo_gpu: "cuda_is_available demo_env"
  by (simp add: demo_env_def)

lemma demo_nonempty: "\<forall>b\<in>set demo_queue. fst b \<noteq> []"
  by (simp add: demo_queue_def)

lemma report_due_100: "report_due step (Finite 100) = Inr (step mod 100 = 0)"
  using report_due_nat [of 100 step] by simp

lemmas demo_defs = demo_queue_def infer_batch_nonempty Let_def
  fed_meters_def update_meters_def bind_err_def update_def fresh_meters_def AvgrageMeter_def
  demo_env_def batch_prefix_def emit_def step_line_def infer_def infer_meters_def
  speed_of_def round_vals
  run_epoch_def main_start_def main_model_def graph_files_def setup_events_def NUM_CLASSES_def

lemma demo_run:
  "main one_epoch_args demo_env =
    (Inr (),
     \<lparr>trace =
       [NpRandomSeed 5, CudaSetDevice 0, CudnnBenchmark True,
        TorchManualSeed 5, CudnnEnabled True, CudaManualSeed 5,
        LoggingInfo (GpuDevice 0), LoggingInfo (RegimeLine True),
        LoggingInfo ArgsLine, ReadGraphInfo ''ws_4_075_conv3.txt'',
        ReadGraphInfo ''ws_4_075_conv4.txt'',
        ReadGraphInfo ''ws_4_075_conv5.txt'', SummaryWriterNew ''EXP'',
        CriterionCuda,
        RandomlyWiredNNNew 78 1000 1280 True
         [''ws_4_075_conv3.txt'', ''ws_4_075_conv4.txt'', ''ws_4_075_conv5.txt''],
        ModelCuda, LoggingInfo ParamSize, LoggingInfo FLOPs,
        PreprocessImagenet, ModelEval, InputsCuda, TargetsCuda, TimeTime 0,
        Forward [1, 2] False, TimeTime 1, LossComputed True,
        AccuracyComputed True,
        LoggingInfo (ValidStep 0 (3 / 4) 30 60 (1 / 16)), InputsCuda,
        TargetsCuda, TimeTime 2, Forward [3] False, TimeTime 3,
        LossComputed True, AccuracyComputed True,
        LoggingInfo (ValidAcc (100 / 3)), LoggingInfo (ValidSpeed (1 / 4)),
        AddScalar ''val_loss'' (3 / 4) 0, WriterClose],
      clock_reads = 4, grad_enabled = True\<rparr>)"
proof -
  have a: "report_freq one_epoch_args = Finite 100" "epochs one_epoch_args = 1"
    "regime one_epoch_args" "graph_txt one_epoch_args = ''ws_4_075_conv''"
    "save one_epoch_args = ''EXP''" "seed one_epoch_args = 5" "gpu one_epoch_args = 0"
    "base_channels one_epoch_args = 78" "output_channels one_epoch_args = 1280"
    by (simp_all add: one_epoch_args_def default_args_def)
  have g: "cuda_is_available demo_env" by (simp add: demo_env_def)
  show ?thesis
    unfolding main_gpu [OF g]
    by (simp add: a demo_defs report_due_100)
qed

subsection \<open>Gradient mode\<close>

lemma loop_event_modes:
  "loop_event g e \<Longrightarrow> set (map snd (forward_of e)) \<subseteq> {False} \<and> set (loss_mode_of e) \<subseteq> {g}"
  by (cases e) simp_all

lemma loop_events_modes:
  "list_all (loop_event g) es \<Longrightarrow>
   set (map snd (forwards es)) \<subseteq> {False} \<and> set (loss_modes es) \<subseteq> {g}"
proof (induction es)
  case Nil
  show ?case by (simp add: forwards_def loss_modes_def)
next
  case (Cons e es)
  then have "loop_event g e" "list_all (loop_event g) es" by simp_all
  with Cons.IH loop_event_modes [of g e] show ?case
    by (simp add: forwards_def loss_modes_def)
qed

lemma infer_forwards:
  assumes "fst (infer a env q model criterion w) = Inr r"
  shows "forwards (events_since w (snd (infer a env q model criterion w)))
           = map (\<lambda>b. (fst b, False)) q"
proof -
  let ?l = "infer_loop a env model criterion 0 q fresh_meters (emit ModelEval w)"
  from assms obtain ms where ms: "fst ?l = Inr ms"
    by (auto simp: infer_def infer_meters_def split: prod.splits sum.splits)
  have s: "snd (infer a env q model criterion w) = snd ?l"
    by (auto simp: infer_def infer_meters_def split: prod.splits sum.splits)
  from infer_loop_forwards [OF ms]
  have f: "forwards (trace (snd ?l)) = forwards (trace w) @ map (\<lambda>b. (fst b, False)) q"
    by (simp add: emit_def forwards_def)
  from infer_events [of a env q model criterion w]
  obtain es where es: "trace (snd (infer a env q model criterion w)) = trace w @ es" by blast
  from f s es have "forwards es = map (\<lambda>b. (fst b, False)) q"
    by (simp add: forwards_append)
  with events_since_append [OF es] show ?thesis by simp
qed

text \<open>
  C1 (amended). For every batch that \<^verbatim>\<open>infer\<close> processes, the forward pass runs with
  the gradient mode disabled. The loss is computed after the \<^verbatim>\<open>with\<close> block has been
  left, under the gradient mode in force when \<^verbatim>\<open>infer\<close> was called, and
  \<^verbatim>\<open>infer\<close> leaves that mode as it found it. In a run without an error there is one
  forward pass for each batch of the queue, in order.
\<close>

theorem forward_pass_without_grad:
  "set (map snd (forwards (events_since w (snd (infer a env q model criterion w))))) \<subseteq> {False}
   \<and> set (loss_modes (events_since w (snd (infer a env q model criterion w))))
        \<subseteq> {grad_enabled w}
   \<and> grad_enabled (snd (infer a env q model criterion w)) = grad_enabled w
   \<and> (fst (infer a env q model criterion w) = Inr r \<longrightarrow>
        forwards (events_since w (snd (infer a env q model criterion w)))
          = map (\<lambda>b. (fst b, False)) q)"
proof -
  from infer_events [of a env q model criterion w]
  obtain es where es: "trace (snd (infer a env q model criterion w)) = trace w @ es"
    "list_all (loop_event (grad_enabled w)) es" by blast
  have f: "fst (infer a env q model criterion w) = Inr r \<longrightarrow>
        forwards (events_since w (snd (infer a env q model criterion w)))
          = map (\<lambda>b. (fst b, False)) q"
    using infer_forwards [of a env q model criterion w r] by blast
  from loop_events_modes [OF es(2)] events_since_append [OF es(1)]
  have m: "set (map snd (forwards (events_since w (snd (infer a env q model criterion w)))))
          \<subseteq> {False}"
    "set (loss_modes (events_since w (snd (infer a env q model criterion w))))
        \<subseteq> {grad_enabled w}"
    by simp_all
  from m f infer_grad [of a env q model criterion w] show ?thesis by blast
qed

theorem forward_pass_without_grad_witness:
  "fst (infer one_epoch_args demo_env demo_queue demo_model (CrossEntropyLoss demo_env) init_world)
     = Inr (100 / 3, 3 / 4, 1 / 4)
   \<and> forwards (events_since init_world
        (snd (infer one_epoch_args demo_env demo_queue demo_model (CrossEntropyLoss demo_env)
           init_world)))
       = [([1, 2], False), ([3], False)]
   \<and> set (loss_modes (events_since init_world
        (snd (infer one_epoch_args demo_env demo_queue demo_model (CrossEntropyLoss demo_env)
           init_world)))) \<subseteq> {True}"
proof -
  have a: "report_freq one_epoch_args = Finite 100"
    by (simp add: one_epoch_args_def default_args_def)
  have r: "fst (infer one_epoch_args demo_env demo_queue demo_model (CrossEntropyLoss demo_env)
      init_world) = Inr (100 / 3, 3 / 4, 1 / 4)"
    by (simp add: a demo_defs report_due_100 demo_model_def init_world_def)
  from forward_pass_without_grad [of init_world one_epoch_args demo_env demo_queue demo_model
      "CrossEntropyLoss demo_env" "(100 / 3, 3 / 4, 1 / 4)"] r
  show ?thesis by (simp add: demo_queue_def init_world_def)
qed

text \<open>
  The claim as stated fails: in the run of \<^verbatim>\<open>main\<close> on the two batches, the loss and
  the accuracy of each batch are computed with the gradient mode enabled.
\<close>

theorem loss_computed_with_grad_enabled:
  "filter with_grad (trace (snd (main one_epoch_args demo_env)))
     = [LossComputed True, AccuracyComputed True, LossComputed True, AccuracyComputed True]"
  by (simp add: demo_run)

subsection \<open>The frequency of the progress lines\<close>

lemma infer_logged:
  assumes "fst (infer a env q model criterion w) = Inr r"
  shows "logged_steps (events_since w (snd (infer a env q model criterion w)))
           = filter (\<lambda>s. report_due s (report_freq a) = Inr True) [0..<length q]"
proof -
  let ?l = "infer_loop a env model criterion 0 q fresh_meters (emit ModelEval w)"
  from assms obtain ms where ms: "fst ?l = Inr ms"
    by (auto simp: infer_def infer_meters_def split: prod.splits sum.splits)
  have s: "snd (infer a env q model criterion w) = snd ?l"
    by (auto simp: infer_def infer_meters_def split: prod.splits sum.splits)
  from infer_loop_logged [OF ms]
  have f: "logged_steps (trace (snd ?l)) = logged_steps (trace w)
      @ filter (\<lambda>s. report_due s (report_freq a) = Inr True) [0..<length q]"
    by (simp add: emit_def logged_steps_def)
  from infer_events [of a env q model criterion w]
  obtain es where es: "trace (snd (infer a env q model criterion w)) = trace w @ es" by blast
  from f s es
  have "logged_steps es = filter (\<lambda>s. report_due s (report_freq a) = Inr True) [0..<length q]"
    by (simp add: logged_steps_append)
  with events_since_append [OF es] show ?thesis by simp
qed

text \<open>
  C8 (amended). In a run of \<^verbatim>\<open>infer\<close> without an error, a progress line is written
  exactly at the steps where \<^verbatim>\<open>step % report_freq == 0\<close> holds. For a frequency that
  is neither zero nor NaN the condition holds at step 0, so that the first batch of a
  non-empty queue has its line; for NaN it holds at no step and no line is written.
\<close>

theorem progress_line_steps:
  "(fst (infer a env q model criterion w) = Inr r \<longrightarrow>
      logged_steps (events_since w (snd (infer a env q model criterion w)))
        = filter (\<lambda>s. report_due s (report_freq a) = Inr True) [0..<length q])
   \<and> (report_freq a \<noteq> Finite 0 \<and> report_freq a \<noteq> NaN \<longrightarrow>
        report_due 0 (report_freq a) = Inr True)
   \<and> (fst (infer a env q model criterion w) = Inr r \<and> q \<noteq> []
        \<and> report_freq a \<noteq> Finite 0 \<and> report_freq a \<noteq> NaN \<longrightarrow>
        hd (logged_steps (events_since w (snd (infer a env q model criterion w)))) = 0
        \<and> logged_steps (events_since w (snd (infer a env q model criterion w))) \<noteq> [])
   \<and> (fst (infer a env q model criterion w) = Inr r \<and> report_freq a = NaN \<longrightarrow>
        logged_steps (events_since w (snd (infer a env q model criterion w))) = [])"
proof (intro conjI impI)
  assume "fst (infer a env q model criterion w) = Inr r"
  then show "logged_steps (events_since w (snd (infer a env q model criterion w)))
        = filter (\<lambda>s. report_due s (report_freq a) = Inr True) [0..<length q]"
    by (rule infer_logged)
next
  assume "report_freq a \<noteq> Finite 0 \<and> report_freq a \<noteq> NaN"
  then show "report_due 0 (report_freq a) = Inr True" by (simp add: report_due_first)
next
  assume h: "fst (infer a env q model criterion w) = Inr r \<and> q \<noteq> []
        \<and> report_freq a \<noteq> Finite 0 \<and> report_freq a \<noteq> NaN"
  then have d: "report_due 0 (report_freq a) = Inr True" by (simp add: report_due_first)
  from h obtain n where n: "length q = Suc n" by (cases q) auto
  have "[0..<Suc n] = 0 # [Suc 0..<Suc n]" by (simp del: upt_Suc add: upt_conv_Cons)
  with h d n infer_logged [of a env q model criterion w r]
  have "logged_steps (events_since w (snd (infer a env q model criterion w)))
      = 0 # filter (\<lambda>s. report_due s (report_freq a) = Inr True) [Suc 0..<Suc n]"
    by (simp del: upt_Suc)
  then show "hd (logged_steps (events_since w (snd (infer a env q model criterion w)))) = 0"
    and "logged_steps (events_since w (snd (infer a env q model criterion w))) \<noteq> []"
    by simp_all
next
  assume "fst (infer a env q model criterion w) = Inr r \<and> report_freq a = NaN"
  then show "logged_steps (events_since w (snd (infer a env q model criterion w))) = []"
    using infer_logged [of a env q model criterion w r] by (simp add: report_due_nan)
qed

lemma nan_run:
  "fst (main nan_freq_args demo_env) = Inr ()
   \<and> forwards (trace (snd (main nan_freq_args demo_env))) = [([1, 2], False), ([3], False)]
   \<and> logged_steps (trace (snd (main nan_freq_args demo_env))) = []"
proof -
  have a: "report_freq nan_freq_args = NaN" "epochs nan_freq_args = 1"
    by (simp_all add: nan_freq_args_def default_args_def)
  have g: "cuda_is_available demo_env" by (simp add: demo_env_def)
  show ?thesis
    unfolding main_gpu [OF g]
    by (simp add: a demo_defs report_due_nan forwards_def logged_steps_def)
qed

theorem progress_line_steps_witness:
  "fst (infer one_epoch_args demo_env demo_queue demo_model (CrossEntropyLoss demo_env) init_world)
     = Inr (100 / 3, 3 / 4, 1 / 4)
   \<and> demo_queue \<noteq> [] \<and> report_freq one_epoch_args \<noteq> Finite 0
   \<and> report_freq one_epoch_args \<noteq> NaN
   \<and> report_due 0 (report_freq one_epoch_args) = Inr True
   \<and> logged_steps (events_since init_world
        (snd (infer one_epoch_args demo_env demo_queue demo_model (CrossEntropyLoss demo_env)
           init_world))) = [0]
   \<and> fst (infer nan_freq_args demo_env demo_queue demo_model (CrossEntropyLoss demo_env) init_world)
     = Inr (100 / 3, 3 / 4, 1 / 4)
   \<and> report_freq nan_freq_args = NaN
   \<and> logged_steps (events_since init_world
        (snd (infer nan_freq_args demo_env demo_queue demo_model (CrossEntropyLoss demo_env)
           init_world))) = []"
proof -
  have a: "report_freq one_epoch_args = Finite 100" "report_freq nan_freq_args = NaN"
    by (simp_all add: one_epoch_args_def nan_freq_args_def default_args_def)
  have r: "fst (infer one_epoch_args demo_env demo_queue demo_model (CrossEntropyLoss demo_env)
      init_world) = Inr (100 / 3, 3 / 4, 1 / 4)"
    by (simp add: a demo_defs report_due_100 demo_model_def init_world_def)
  have n: "fst (infer nan_freq_args demo_env demo_queue demo_model (CrossEntropyLoss demo_env)
      init_world) = Inr (100 / 3, 3 / 4, 1 / 4)"
    by (simp add: a demo_defs report_due_nan demo_model_def init_world_def)
  have q: "demo_queue \<noteq> []" "length demo_queue = 2" by (simp_all add: demo_queue_def)
  have u: "[0..<2] = [0, Suc 0]" by (simp add: upt_rec)
  from progress_line_steps [of one_epoch_args demo_env demo_queue demo_model
      "CrossEntropyLoss demo_env" init_world "(100 / 3, 3 / 4, 1 / 4)"]
    progress_line_steps [of nan_freq_args demo_env demo_queue demo_model
      "CrossEntropyLoss demo_env" init_world "(100 / 3, 3 / 4, 1 / 4)"] r n q
  show ?thesis by (simp add: a report_due_100 report_due_nan u)
qed

text \<open>
  The claim as stated fails for the frequency NaN, which is not zero: the run over the two
  batches completes and no progress line is written, not even for the first batch.
\<close>

theorem nan_frequency_never_reports:
  "report_freq nan_freq_args \<noteq> Finite 0
   \<and> fst (main nan_freq_args demo_env) = Inr ()
   \<and> forwards (trace (snd (main nan_freq_args demo_env))) = [([1, 2], False), ([3], False)]
   \<and> logged_steps (trace (snd (main nan_freq_args demo_env))) = []"
  using nan_run by (simp add: nan_freq_args_def)

subsection \<open>A zero frequency\<close>

lemma since_forwards:
  assumes "trace w' = trace w @ es" and "forwards (trace w') = forwards (trace w) @ fs"
  shows "forwards (events_since w w') = fs"
  using assms by (simp add: events_since_def forwards_append)

text \<open>
  C10. With a zero frequency \<^verbatim>\<open>infer\<close> raises the division error of the modulo on
  its first batch, after one forward pass. With a non-zero frequency the modulo never
  raises, and \<^verbatim>\<open>infer\<close> returns on every queue of non-empty batches.
\<close>

theorem zero_report_freq_raises:
  "(report_freq a = Finite 0 \<and> fst b \<noteq> [] \<longrightarrow>
      fst (infer a env (b # bs) model criterion w) = Inl (ZeroDivisionError ReportModulo)
      \<and> forwards (events_since w (snd (infer a env (b # bs) model criterion w)))
          = [(fst b, False)])
   \<and> (report_freq a \<noteq> Finite 0 \<longrightarrow>
        fst (infer a env q model criterion w) \<noteq> Inl (ZeroDivisionError ReportModulo))
   \<and> (report_freq a \<noteq> Finite 0 \<and> (\<forall>b\<in>set q. fst b \<noteq> []) \<longrightarrow>
        (\<exists>r. fst (infer a env q model criterion w) = Inr r))"
proof (intro conjI impI)
  assume h: "report_freq a = Finite 0 \<and> fst b \<noteq> []"
  let ?w0 = "emit ModelEval w"
  let ?r = "infer_batch a env model criterion 0 b fresh_meters ?w0"
  from h fed_meters_ok [of b env model criterion "clock_reads ?w0" fresh_meters]
  obtain ms' where "fed_meters env model criterion (clock_reads ?w0) b fresh_meters = Inr ms'"
    by blast
  with h have e: "fst ?r = Inl (ZeroDivisionError ReportModulo)"
    by (simp add: infer_batch_nonempty report_due_zero Let_def)
  then have i: "infer a env (b # bs) model criterion w = (Inl (ZeroDivisionError ReportModulo), snd ?r)"
    by (cases ?r) (simp add: infer_def infer_meters_def)
  then show "fst (infer a env (b # bs) model criterion w) = Inl (ZeroDivisionError ReportModulo)"
    by simp
  from infer_events [of a env "b # bs" model criterion w] i
  obtain es where es: "trace (snd ?r) = trace w @ es" by auto
  from infer_batch_forwards [of a env model criterion 0 b fresh_meters ?w0]
  have "forwards (trace (snd ?r)) = forwards (trace w) @ [(fst b, False)]"
    by (simp add: emit_def forwards_def)
  from since_forwards [OF es this] i
  show "forwards (events_since w (snd (infer a env (b # bs) model criterion w)))
          = [(fst b, False)]" by simp
next
  assume "report_freq a \<noteq> Finite 0"
  from infer_loop_no_modulo_error [OF this, of env model criterion 0 q fresh_meters
      "emit ModelEval w"]
  show "fst (infer a env q model criterion w) \<noteq> Inl (ZeroDivisionError ReportModulo)"
    by (auto simp: infer_def infer_meters_def split: prod.splits sum.splits)
next
  assume h: "report_freq a \<noteq> Finite 0 \<and> (\<forall>b\<in>set q. fst b \<noteq> [])"
  then have 1: "report_freq a \<noteq> Finite 0" and 2: "\<forall>b\<in>set q. fst b \<noteq> []" by simp_all
  from infer_loop_ok [OF 1 2, of env model criterion 0 fresh_meters "emit ModelEval w"]
  show "\<exists>r. fst (infer a env q model criterion w) = Inr r"
    by (auto simp: infer_def infer_meters_def split: prod.splits sum.splits)
qed

theorem zero_report_freq_raises_witness:
  "report_freq zero_freq_args = Finite 0 \<and> fst ([1::nat, 2], [10::nat, 20]) \<noteq> []
   \<and> fst (infer zero_freq_args demo_env (([1, 2], [10, 20]) # [([3], [40])]) demo_model
        (CrossEntropyLoss demo_env) init_world) = Inl (ZeroDivisionError ReportModulo)
   \<and> report_freq one_epoch_args \<noteq> Finite 0
   \<and> demo_queue = [([1, 2], [10, 20]), ([3], [40])]
   \<and> fst ([1::nat, 2], [10::nat, 20]) \<noteq> [] \<and> fst ([3::nat], [40::nat]) \<noteq> []
   \<and> (\<exists>r. fst (infer one_epoch_args demo_env demo_queue demo_model (CrossEntropyLoss demo_env)
        init_world) = Inr r)"
proof -
  have a: "report_freq zero_freq_args = Finite 0" "report_freq one_epoch_args \<noteq> Finite 0"
    by (simp_all add: zero_freq_args_def one_epoch_args_def default_args_def)
  from zero_report_freq_raises [of zero_freq_args "([1::nat, 2], [10::nat, 20])" demo_env
      "[([3], [40])]" demo_model "CrossEntropyLoss demo_env" init_world demo_queue]
    zero_report_freq_raises [of one_epoch_args "([1::nat, 2], [10::nat, 20])" demo_env
      "[([3], [40])]" demo_model "CrossEntropyLoss demo_env" init_world demo_queue]
    a demo_nonempty
  show ?thesis by (simp add: demo_queue_def)
qed

subsection \<open>What the speed meter measures\<close>

lemma fed_meters_speed:
  assumes "fst b \<noteq> []" and "fed_meters env model criterion k b ms = Inr ms'"
  shows "update (speed ms) (speed_of env k (length (fst b))) (length (fst b)) = Inr (speed ms')"
  using assms by (auto simp: fed_meters_def update_meters_def bind_err_def update_pos)

text \<open>
  C7 (amended). For every batch of \<open>n > 0\<close> images, the per-image latency that
  \<^verbatim>\<open>infer\<close> feeds to the speed meter is the floating-point quotient by \<open>n\<close> of the
  floating-point difference of two readings of the clock; it equals the elapsed time
  divided by \<open>n\<close> when the difference and the quotient are doubles, and otherwise only up
  to rounding. Between the two readings the trace has the forward pass and nothing else:
  the transfers to the device come before the first reading, the loss and the accuracy
  after the second. The meter is updated before the frequency of the reports is looked
  at; a zero frequency then raises, any other lets the batch complete.
\<close>

theorem per_image_speed_brackets_forward_only:
  assumes "fst b \<noteq> []"
  shows "let k = clock_reads w; tic = time_time env k; toc = time_time env (Suc k);
             n = length (fst b); r = infer_batch a env model criterion step b ms w
         in \<exists>v ms'. per_image_speed env tic toc n = Inr v
              \<and> v = float_round env
                      (float_round env (1 * float_round env (toc - tic)) / of_nat n)
              \<and> (float_round env (toc - tic) = toc - tic
                   \<and> float_round env ((toc - tic) / of_nat n) = (toc - tic) / of_nat n
                 \<longrightarrow> v * of_nat n = toc - tic)
              \<and> fed_meters env model criterion k b ms = Inr ms'
              \<and> update (speed ms) v n = Inr (speed ms')
              \<and> fst r = (if report_freq a = Finite 0
                         then Inl (ZeroDivisionError ReportModulo) else Inr ms')
              \<and> take 7 (events_since w (snd r)) =
                  [InputsCuda, TargetsCuda, TimeTime k, Forward (fst b) False,
                   TimeTime (Suc k), LossComputed (grad_enabled w),
                   AccuracyComputed (grad_enabled w)]"
proof -
  let ?k = "clock_reads w"
  let ?tic = "time_time env ?k" and ?toc = "time_time env (Suc ?k)"
  let ?n = "length (fst b)" and ?r = "infer_batch a env model criterion step b ms w"
  let ?v = "float_round env (float_round env (1 * float_round env (?toc - ?tic)) / of_nat ?n)"
  from fed_meters_ok [OF assms]
  obtain ms' where 1: "fed_meters env model criterion ?k b ms = Inr ms'" by blast
  have v: "speed_of env ?k ?n = ?v" by (simp add: speed_of_def)
  have p: "per_image_speed env ?tic ?toc ?n = Inr ?v"
    using assms by (simp add: per_image_speed_def)
  have e: "float_round env (?toc - ?tic) = ?toc - ?tic
             \<and> float_round env ((?toc - ?tic) / of_nat ?n) = (?toc - ?tic) / of_nat ?n
           \<longrightarrow> ?v * of_nat ?n = ?toc - ?tic"
    using assms by simp
  have u: "update (speed ms) ?v ?n = Inr (speed ms')"
    using fed_meters_speed [OF assms 1] by (simp add: v)
  have f: "fst ?r = (if report_freq a = Finite 0
                     then Inl (ZeroDivisionError ReportModulo) else Inr ms')"
  proof (cases "report_freq a = Finite 0")
    case True
    then show ?thesis
      by (simp add: infer_batch_nonempty [OF assms] 1 report_due_zero Let_def)
  next
    case False
    from report_due_nonzero [OF this]
    obtain d where "report_due step (report_freq a) = Inr d" by blast
    with False show ?thesis
      by (simp add: infer_batch_nonempty [OF assms] 1 Let_def)
  qed
  have t: "take 7 (events_since w (snd ?r)) =
      [InputsCuda, TargetsCuda, TimeTime ?k, Forward (fst b) False,
       TimeTime (Suc ?k), LossComputed (grad_enabled w), AccuracyComputed (grad_enabled w)]"
    by (simp add: infer_batch_nonempty [OF assms] 1 Let_def emit_def events_since_def
        batch_prefix_def split: sum.split)
  from p e 1 u f t show ?thesis
    unfolding Let_def by blast
qed

theorem per_image_speed_brackets_forward_only_witness:
  "fst ([1::nat, 2], [10::nat, 20]) \<noteq> []
   \<and> float_round demo_env (1 / 8 - 0) = 1 / 8 - 0
   \<and> float_round demo_env ((1 / 8 - 0) / 2) = (1 / 8 - 0) / 2
   \<and> per_image_speed demo_env (time_time demo_env 0) (time_time demo_env (Suc 0)) 2
       = Inr (1 / 16)
   \<and> 1 / 16 * (2::rat) = time_time demo_env (Suc 0) - time_time demo_env 0
   \<and> take 7 (events_since init_world
        (snd (infer_batch one_epoch_args demo_env demo_model (CrossEntropyLoss demo_env) 0
           ([1, 2], [10, 20]) fresh_meters init_world))) =
       [InputsCuda, TargetsCuda, TimeTime 0, Forward [1, 2] False, TimeTime 1,
        LossComputed True, AccuracyComputed True]"
proof -
  let ?w = "init_world :: (nat, string) world"
  let ?b = "([1::nat, 2], [10::nat, 20])"
  let ?tic = "time_time demo_env (clock_reads ?w)"
  let ?toc = "time_time demo_env (Suc (clock_reads ?w))"
  have b: "fst ?b \<noteq> []" by simp
  have t: "?tic = 0" "?toc = 1 / 8" "float_round demo_env = round_double"
    "time_time demo_env 0 = 0" "time_time demo_env (Suc 0) = 1 / 8"
    by (simp_all add: demo_env_def init_world_def)
  have c: "clock_reads ?w = 0" "grad_enabled ?w" by (simp_all add: init_world_def)
  from per_image_speed_brackets_forward_only [OF b, of ?w demo_env one_epoch_args
      demo_model "CrossEntropyLoss demo_env" 0 fresh_meters]
  obtain v where v: "per_image_speed demo_env ?tic ?toc (length (fst ?b)) = Inr v"
    and e: "float_round demo_env (?toc - ?tic) = ?toc - ?tic
            \<and> float_round demo_env ((?toc - ?tic) / of_nat (length (fst ?b)))
                = (?toc - ?tic) / of_nat (length (fst ?b))
            \<longrightarrow> v * of_nat (length (fst ?b)) = ?toc - ?tic"
    and k: "take 7 (events_since ?w
        (snd (infer_batch one_epoch_args demo_env demo_model (CrossEntropyLoss demo_env) 0
           ?b fresh_meters ?w))) =
       [InputsCuda, TargetsCuda, TimeTime (clock_reads ?w), Forward (fst ?b) False,
        TimeTime (Suc (clock_reads ?w)), LossComputed (grad_enabled ?w),
        AccuracyComputed (grad_enabled ?w)]"
    unfolding Let_def by blast
  have r: "float_round demo_env (1 / 8 - 0) = 1 / 8 - 0"
    "float_round demo_env ((1 / 8 - 0) / 2) = (1 / 8 - 0) / 2"
    by (simp_all add: t round_vals)
  have p: "per_image_speed demo_env ?tic ?toc (length (fst ?b)) = Inr (1 / 16)"
    by (simp add: per_image_speed_def t round_vals)
  with v have v16: "v = 1 / 16" by simp
  from e r have "v * 2 = 1 / 8 - 0" by (simp add: t)
  with v16 have m: "1 / 16 * (2::rat) = time_time demo_env (Suc 0) - time_time demo_env 0"
    by (simp add: t)
  from p have p': "per_image_speed demo_env (time_time demo_env 0)
      (time_time demo_env (Suc 0)) 2 = Inr (1 / 16)"
    by (simp add: c numeral_2_eq_2)
  from k have k': "take 7 (events_since init_world
        (snd (infer_batch one_epoch_args demo_env demo_model (CrossEntropyLoss demo_env) 0
           ([1, 2], [10, 20]) fresh_meters init_world))) =
       [InputsCuda, TargetsCuda, TimeTime 0, Forward [1, 2] False, TimeTime 1,
        LossComputed True, AccuracyComputed True]"
    by (simp add: c)
  from b r p' m k' show ?thesis by blast
qed

text \<open>
  The claim as stated fails: with one second between the two readings and a batch of 49
  images, line 112 gives the double nearest to 1/49, and 49 times this value is not the
  elapsed time, neither exactly nor as the product of doubles, which is
  0.9999999999999999.
\<close>

theorem per_image_speed_is_rounded:
  "per_image_speed unit_clock_env (time_time unit_clock_env 0) (time_time unit_clock_env 1) 49
     = Inr (5882252574524729 / 2 ^ 58)
   \<and> 5882252574524729 / 2 ^ 58 * (49::rat)
       \<noteq> time_time unit_clock_env 1 - time_time unit_clock_env 0
   \<and> float_round unit_clock_env (5882252574524729 / 2 ^ 58 * 49) = 9007199254740991 / 2 ^ 53"
  by (simp add: per_image_speed_def unit_clock_env_def demo_env_def round_defs)

subsection \<open>The meters are weighted means\<close>

lemma fed_step:
  assumes "update m v n = Inr m1" and "0 < n" and "fed m1 vns m'"
  shows "fed m ((v, n) # vns) m'"
proof -
  from assms(1,2) have m1: "m_sum m1 = m_sum m + v * of_nat n" "m_cnt m1 = m_cnt m + n"
    "m_avg m1 = m_sum m1 / of_nat (m_cnt m1)"
    by (auto simp: update_pos)
  show ?thesis
  proof (cases "vns = []")
    case True
    with assms(3) have "m' = m1" by (simp add: fed_def)
    with m1 True show ?thesis by (simp add: fed_def)
  next
    case False
    with assms(3) m1 show ?thesis by (simp add: fed_def add.assoc)
  qed
qed

lemma fed_fresh_mean:
  assumes "fed AvgrageMeter vns m" and "vns \<noteq> []"
  shows "m_avg m = weighted_mean vns"
  using assms by (simp add: fed_def AvgrageMeter_def weighted_mean_def)

lemma fed_meters_fields:
  assumes "fst b \<noteq> []" and "fed_meters env model criterion k b ms = Inr ms1"
  shows "update (objs ms) (criterion (model (fst b)) (snd b)) (length (fst b)) = Inr (objs ms1)"
    and "update (top1 ms) (fst (accuracy env (model (fst b)) (snd b))) (length (fst b))
           = Inr (top1 ms1)"
    and "update (top5 ms) (snd (accuracy env (model (fst b)) (snd b))) (length (fst b))
           = Inr (top5 ms1)"
    and "update (speed ms) (speed_of env k (length (fst b))) (length (fst b))
           = Inr (speed ms1)"
  using assms by (auto simp: fed_meters_def update_meters_def bind_err_def update_pos)

lemma infer_batch_Inr:
  assumes "infer_batch a env model criterion step b ms w = (Inr ms1, w1)"
  shows "fst b \<noteq> []"
    and "fed_meters env model criterion (clock_reads w) b ms = Inr ms1"
    and "clock_reads w1 = Suc (Suc (clock_reads w))"
proof -
  show b: "fst b \<noteq> []"
  proof
    assume "fst b = []"
    then obtain t where "b = ([], t)" by (cases b) auto
    with assms show False by (simp add: infer_batch_empty)
  qed
  from assms show "fed_meters env model criterion (clock_reads w) b ms = Inr ms1"
    by (auto simp: infer_batch_nonempty [OF b] Let_def split: sum.splits)
  from infer_batch_state [of a env model criterion step b ms w] assms
  show "clock_reads w1 = Suc (Suc (clock_reads w))" by simp
qed

lemma infer_loop_fed:
  "infer_loop a env model criterion step q ms w = (Inr ms', w') \<Longrightarrow>
   fed (objs ms) (loss_fed model criterion q) (objs ms')
   \<and> fed (top1 ms) (top1_fed env model q) (top1 ms')
   \<and> fed (top5 ms) (top5_fed env model q) (top5 ms')
   \<and> fed (speed ms) (speed_fed env (clock_reads w) q) (speed ms')"
proof (induction q arbitrary: step ms w)
  case Nil
  then show ?case by (simp add: fed_def loss_fed_def top1_fed_def top5_fed_def)
next
  case (Cons b q)
  obtain r w1 where b: "infer_batch a env model criterion step b ms w = (r, w1)"
    by (cases "infer_batch a env model criterion step b ms w")
  with Cons.prems obtain ms1 where r: "r = Inr ms1" by (cases r) auto
  note i = infer_batch_Inr [OF b [unfolded r]]
  from i(1) have n: "0 < length (fst b)" by simp
  note u = fed_meters_fields [OF i(1) i(2)]
  from Cons.prems b r
  have "infer_loop a env model criterion (Suc step) q ms1 w1 = (Inr ms', w')" by simp
  from Cons.IH [OF this] i(3)
  have ih: "fed (objs ms1) (loss_fed model criterion q) (objs ms')"
    "fed (top1 ms1) (top1_fed env model q) (top1 ms')"
    "fed (top5 ms1) (top5_fed env model q) (top5 ms')"
    "fed (speed ms1) (speed_fed env (Suc (Suc (clock_reads w))) q) (speed ms')"
    by simp_all
  from fed_step [OF u(1) n ih(1)] fed_step [OF u(2) n ih(2)] fed_step [OF u(3) n ih(3)]
    fed_step [OF u(4) n ih(4)]
  show ?case by (simp add: loss_fed_def top1_fed_def top5_fed_def)
qed

lemma infer_meters_means:
  assumes "fst (infer_meters a env q model criterion w) = Inr ms" and "q \<noteq> []"
  shows "m_avg (objs ms) = weighted_mean (loss_fed model criterion q)"
    and "m_avg (top1 ms) = weighted_mean (top1_fed env model q)"
    and "m_avg (top5 ms) = weighted_mean (top5_fed env model q)"
    and "m_avg (speed ms) = weighted_mean (speed_fed env (clock_reads w) q)"
proof -
  obtain w' where "infer_loop a env model criterion 0 q fresh_meters (emit ModelEval w) = (Inr ms, w')"
    using assms(1) by (cases "infer_loop a env model criterion 0 q fresh_meters (emit ModelEval w)")
      (simp add: infer_meters_def)
  from infer_loop_fed [OF this]
  have f: "fed AvgrageMeter (loss_fed model criterion q) (objs ms)"
    "fed AvgrageMeter (top1_fed env model q) (top1 ms)"
    "fed AvgrageMeter (top5_fed env model q) (top5 ms)"
    "fed AvgrageMeter (speed_fed env (clock_reads w) q) (speed ms)"
    by (simp_all add: fresh_meters_def emit_def)
  from assms(2) have ne: "loss_fed model criterion q \<noteq> []" "top1_fed env model q \<noteq> []"
    "top5_fed env model q \<noteq> []" "speed_fed env (clock_reads w) q \<noteq> []"
    by (cases q; simp add: loss_fed_def top1_fed_def top5_fed_def)+
  from f ne show "m_avg (objs ms) = weighted_mean (loss_fed model criterion q)"
    and "m_avg (top1 ms) = weighted_mean (top1_fed env model q)"
    and "m_avg (top5 ms) = weighted_mean (top5_fed env model q)"
    and "m_avg (speed ms) = weighted_mean (speed_fed env (clock_reads w) q)"
    by (simp_all add: fed_fresh_mean)
qed

text \<open>
  C5. After any number of batches processed without an error, the average of each of the
  four meters of \<^verbatim>\<open>infer\<close> is the mean of the values fed to it so far, weighted by
  the number of samples of their batches; and \<^verbatim>\<open>infer\<close> returns the averages of the
  top-1, loss and speed meters.
\<close>

theorem meters_are_weighted_means:
  assumes "fst (infer_meters a env q model criterion w) = Inr ms" and "q \<noteq> []"
  shows "m_avg (objs ms) = weighted_mean (loss_fed model criterion q)
   \<and> m_avg (top1 ms) = weighted_mean (top1_fed env model q)
   \<and> m_avg (top5 ms) = weighted_mean (top5_fed env model q)
   \<and> m_avg (speed ms) = weighted_mean (speed_fed env (clock_reads w) q)
   \<and> fst (infer a env q model criterion w)
       = Inr (m_avg (top1 ms), m_avg (objs ms), m_avg (speed ms))"
proof -
  have "fst (infer a env q model criterion w)
       = Inr (m_avg (top1 ms), m_avg (objs ms), m_avg (speed ms))"
    using assms(1) by (cases "infer_meters a env q model criterion w") (simp add: infer_def)
  with infer_meters_means [OF assms] show ?thesis by simp
qed

theorem meters_are_weighted_means_witness:
  "fst (infer_meters one_epoch_args demo_env demo_queue demo_model (CrossEntropyLoss demo_env)
         init_world)
     = Inr \<lparr>objs = \<lparr>m_avg = 3 / 4, m_sum = 9 / 4, m_cnt = 3\<rparr>,
            top1 = \<lparr>m_avg = 100 / 3, m_sum = 100, m_cnt = 3\<rparr>,
            top5 = \<lparr>m_avg = 200 / 3, m_sum = 200, m_cnt = 3\<rparr>,
            speed = \<lparr>m_avg = 1 / 4, m_sum = 3 / 4, m_cnt = 3\<rparr>\<rparr>
   \<and> demo_queue \<noteq> []
   \<and> weighted_mean (loss_fed demo_model (CrossEntropyLoss demo_env) demo_queue) = 3 / 4
   \<and> weighted_mean (top1_fed demo_env demo_model demo_queue) = 100 / 3
   \<and> weighted_mean (top5_fed demo_env demo_model demo_queue) = 200 / 3
   \<and> weighted_mean (speed_fed demo_env (clock_reads (init_world :: (nat, string) world))
        demo_queue) = 1 / 4"
proof -
  have a: "report_freq one_epoch_args = Finite 100"
    by (simp add: one_epoch_args_def default_args_def)
  have r: "fst (infer_meters one_epoch_args demo_env demo_queue demo_model
         (CrossEntropyLoss demo_env) (init_world :: (nat, string) world))
     = Inr \<lparr>objs = \<lparr>m_avg = 3 / 4, m_sum = 9 / 4, m_cnt = 3\<rparr>,
            top1 = \<lparr>m_avg = 100 / 3, m_sum = 100, m_cnt = 3\<rparr>,
            top5 = \<lparr>m_avg = 200 / 3, m_sum = 200, m_cnt = 3\<rparr>,
            speed = \<lparr>m_avg = 1 / 4, m_sum = 3 / 4, m_cnt = 3\<rparr>\<rparr>"
    by (simp add: a demo_defs report_due_100 demo_model_def init_world_def)
  have q: "demo_queue \<noteq> []" by (simp add: demo_queue_def)
  from meters_are_weighted_means [OF r q] r q show ?thesis by simp
qed

subsection \<open>What an epoch reports\<close>

text \<open>
  C2 (amended). For every epoch whose evaluation pass completes on a non-empty queue,
  \<^verbatim>\<open>main\<close> logs the top-1 accuracy and the per-image speed of the pass and writes its
  loss as the scalar \<^verbatim>\<open>val_loss\<close>, each the mean over the pass weighted by batch
  size; these three outputs are all that the epoch adds after \<^verbatim>\<open>infer\<close> has
  returned, and none of them carries the top-5 accuracy, which \<^verbatim>\<open>infer\<close> does not
  return.
\<close>

theorem epoch_reports_top1_speed_loss:
  assumes "fst (infer_meters a env q model criterion w) = Inr ms" and "q \<noteq> []"
  shows "fst (infer a env q model criterion w)
           = Inr (weighted_mean (top1_fed env model q), weighted_mean (loss_fed model criterion q),
                  weighted_mean (speed_fed env (clock_reads w) q))
   \<and> fst (run_epoch a env q model criterion epoch w) = Inr ()
   \<and> events_since (snd (infer a env q model criterion w))
        (snd (run_epoch a env q model criterion epoch w))
       = [LoggingInfo (ValidAcc (weighted_mean (top1_fed env model q))),
          LoggingInfo (ValidSpeed (weighted_mean (speed_fed env (clock_reads w) q))),
          AddScalar ''val_loss'' (weighted_mean (loss_fed model criterion q)) epoch]
   \<and> top5_reports (events_since (snd (infer a env q model criterion w))
        (snd (run_epoch a env q model criterion epoch w))) = []"
proof -
  note m = infer_meters_means [OF assms]
  obtain w1 where i: "infer_meters a env q model criterion w = (Inr ms, w1)"
    using assms(1) by (cases "infer_meters a env q model criterion w") simp
  have r: "infer a env q model criterion w
      = (Inr (weighted_mean (top1_fed env model q), weighted_mean (loss_fed model criterion q),
              weighted_mean (speed_fed env (clock_reads w) q)), w1)"
    by (simp add: infer_def i m)
  show ?thesis
    by (simp add: r run_epoch_def emit_def events_since_def top5_reports_def)
qed

theorem epoch_reports_top1_speed_loss_witness:
  "fst (infer_meters one_epoch_args demo_env demo_queue demo_model (CrossEntropyLoss demo_env)
         init_world)
     = Inr \<lparr>objs = \<lparr>m_avg = 3 / 4, m_sum = 9 / 4, m_cnt = 3\<rparr>,
            top1 = \<lparr>m_avg = 100 / 3, m_sum = 100, m_cnt = 3\<rparr>,
            top5 = \<lparr>m_avg = 200 / 3, m_sum = 200, m_cnt = 3\<rparr>,
            speed = \<lparr>m_avg = 1 / 4, m_sum = 3 / 4, m_cnt = 3\<rparr>\<rparr>
   \<and> demo_queue \<noteq> []
   \<and> fst (run_epoch one_epoch_args demo_env demo_queue demo_model (CrossEntropyLoss demo_env) 0
        init_world) = Inr ()
   \<and> events_since
        (snd (infer one_epoch_args demo_env demo_queue demo_model (CrossEntropyLoss demo_env)
           init_world))
        (snd (run_epoch one_epoch_args demo_env demo_queue demo_model (CrossEntropyLoss demo_env) 0
           init_world))
       = [LoggingInfo (ValidAcc (100 / 3)), LoggingInfo (ValidSpeed (1 / 4)),
          AddScalar ''val_loss'' (3 / 4) 0]"
proof -
  have a: "report_freq one_epoch_args = Finite 100"
    by (simp add: one_epoch_args_def default_args_def)
  have r: "fst (infer_meters one_epoch_args demo_env demo_queue demo_model
         (CrossEntropyLoss demo_env) (init_world :: (nat, string) world))
     = Inr \<lparr>objs = \<lparr>m_avg = 3 / 4, m_sum = 9 / 4, m_cnt = 3\<rparr>,
            top1 = \<lparr>m_avg = 100 / 3, m_sum = 100, m_cnt = 3\<rparr>,
            top5 = \<lparr>m_avg = 200 / 3, m_sum = 200, m_cnt = 3\<rparr>,
            speed = \<lparr>m_avg = 1 / 4, m_sum = 3 / 4, m_cnt = 3\<rparr>\<rparr>"
    by (simp add: a demo_defs report_due_100 demo_model_def init_world_def)
  have q: "demo_queue \<noteq> []" by (simp add: demo_queue_def)
  have v: "weighted_mean (loss_fed demo_model (CrossEntropyLoss demo_env) demo_queue) = 3 / 4"
    "weighted_mean (top1_fed demo_env demo_model demo_queue) = 100 / 3"
    "weighted_mean (speed_fed demo_env (clock_reads (init_world :: (nat, string) world))
        demo_queue) = 1 / 4"
    by (simp_all add: weighted_mean_def loss_fed_def top1_fed_def demo_queue_def demo_env_def
        demo_model_def init_world_def speed_of_def round_vals)
  from epoch_reports_top1_speed_loss [OF r q, of 0] r q show ?thesis by (simp add: v)
qed

text \<open>
  The claim as stated fails: in the run of \<^verbatim>\<open>main\<close> on the two batches the top-5
  accuracy of the pass is 200/3, and the only top-5 value in the whole output is 60, the
  running average after the first batch in the progress line of step 0. The top-1 accuracy
  and the speed of the pass are logged.
\<close>

theorem epoch_top5_not_reported:
  "weighted_mean (top5_fed demo_env (main_model one_epoch_args demo_env) demo_queue) = 200 / 3
   \<and> top5_reports (trace (snd (main one_epoch_args demo_env))) = [60]
   \<and> valid_accs (trace (snd (main one_epoch_args demo_env))) = [100 / 3]
   \<and> valid_speeds (trace (snd (main one_epoch_args demo_env))) = [1 / 4]"
proof -
  have "weighted_mean (top5_fed demo_env (main_model one_epoch_args demo_env) demo_queue)
          = 200 / 3"
    by (simp add: weighted_mean_def top5_fed_def demo_queue_def demo_env_def)
  then show ?thesis
    by (simp add: demo_run top5_reports_def valid_accs_def valid_speeds_def)
qed

subsection \<open>The loop over the epochs\<close>

lemma outline_append: "outline (xs @ ys) = outline xs @ outline ys"
  by (simp add: outline_def)

lemma infer_batch_outline:
  "outline (trace (snd (infer_batch a env model criterion step b ms w))) = outline (trace w)"
proof (cases "fst b = []")
  case True
  then obtain t where "b = ([], t)" by (cases b) auto
  then show ?thesis by (simp add: infer_batch_empty batch_prefix_def outline_def)
next
  case False
  then show ?thesis
    by (simp add: infer_batch_nonempty Let_def emit_def batch_prefix_def step_line_def
        outline_def split: sum.split)
qed

lemma infer_loop_outline:
  "outline (trace (snd (infer_loop a env model criterion step q ms w))) = outline (trace w)"
proof (induction q arbitrary: step ms w)
  case Nil
  show ?case by simp
next
  case (Cons b q)
  obtain r w1 where b: "infer_batch a env model criterion step b ms w = (r, w1)"
    by (cases "infer_batch a env model criterion step b ms w")
  from infer_batch_outline [of a env model criterion step b ms w] b
  have "outline (trace w1) = outline (trace w)" by simp
  with b Cons.IH [of "Suc step" _ w1] show ?case by (cases r) simp_all
qed

lemma infer_loop_clock:
  "fst (infer_loop a env model criterion step q ms w) = Inr ms' \<Longrightarrow>
   clock_reads (snd (infer_loop a env model criterion step q ms w))
     = clock_reads w + 2 * length q"
proof (induction q arbitrary: step ms w)
  case Nil
  show ?case by simp
next
  case (Cons b q)
  obtain r w1 where b: "infer_batch a env model criterion step b ms w = (r, w1)"
    by (cases "infer_batch a env model criterion step b ms w")
  with Cons.prems obtain ms1 where r: "r = Inr ms1" by (cases r) auto
  from infer_batch_state [of a env model criterion step b ms w] b
  have c: "clock_reads w1 = Suc (Suc (clock_reads w))" by simp
  from Cons.prems b r
  have "fst (infer_loop a env model criterion (Suc step) q ms1 w1) = Inr ms'" by simp
  from Cons.IH [OF this] show ?case using b r c by simp
qed

lemma infer_values:
  assumes "fst (infer a env q model criterion w) = Inr r"
  shows "r = pass_means env model criterion (clock_reads w) q"
proof -
  from assms obtain ms where ms: "fst (infer_meters a env q model criterion w) = Inr ms"
    and r: "r = (m_avg (top1 ms), m_avg (objs ms), m_avg (speed ms))"
    by (cases "infer_meters a env q model criterion w")
      (auto simp: infer_def split: sum.splits)
  show ?thesis
  proof (cases "q = []")
    case True
    with ms have "ms = fresh_meters" by (simp add: infer_meters_def)
    with r True show ?thesis
      by (simp add: pass_means_def fresh_meters_def AvgrageMeter_def)
  next
    case False
    from infer_meters_means [OF ms False] r False show ?thesis
      by (simp add: pass_means_def)
  qed
qed

lemma run_epoch_Inr:
  assumes "fst (run_epoch a env q model criterion ep w) = Inr u"
  shows "outline (trace (snd (run_epoch a env q model criterion ep w)))
           = outline (trace w)
             @ (case pass_means env model criterion (clock_reads w) q of
                  (valid_acc, valid_obj, valid_speed) \<Rightarrow>
                    [InferCall, AccLine valid_acc, SpeedLine valid_speed,
                     ScalarWritten ''val_loss'' valid_obj ep])"
    and "forwards (trace (snd (run_epoch a env q model criterion ep w)))
           = forwards (trace w) @ map (\<lambda>b. (fst b, False)) q"
    and "clock_reads (snd (run_epoch a env q model criterion ep w))
           = clock_reads w + 2 * length q"
proof -
  let ?l = "infer_loop a env model criterion 0 q fresh_meters (emit ModelEval w)"
  obtain ri wi where i: "infer a env q model criterion w = (ri, wi)"
    by (cases "infer a env q model criterion w")
  with assms obtain r where ri: "ri = Inr r"
    by (cases ri) (auto simp: run_epoch_def)
  from infer_values [of a env q model criterion w r] i ri
  have r: "r = pass_means env model criterion (clock_reads w) q" by simp
  from i ri obtain ms where l: "?l = (Inr ms, wi)"
    by (cases ?l) (auto simp: infer_def infer_meters_def split: sum.splits)
  from infer_loop_outline [of a env model criterion 0 q fresh_meters "emit ModelEval w"] l
  have o: "outline (trace wi) = outline (trace w) @ [InferCall]"
    by (simp add: emit_def outline_def)
  from infer_loop_forwards [of a env model criterion 0 q fresh_meters "emit ModelEval w" ms] l
  have f: "forwards (trace wi) = forwards (trace w) @ map (\<lambda>b. (fst b, False)) q"
    by (simp add: emit_def forwards_def)
  from infer_loop_clock [of a env model criterion 0 q fresh_meters "emit ModelEval w" ms] l
  have c: "clock_reads wi = clock_reads w + 2 * length q"
    by (simp add: emit_def)
  obtain acc obj spd where p: "pass_means env model criterion (clock_reads w) q = (acc, obj, spd)"
    by (cases "pass_means env model criterion (clock_reads w) q")
  have e: "run_epoch a env q model criterion ep w =
      (Inr (), emit (AddScalar ''val_loss'' obj ep)
                 (emit (LoggingInfo (ValidSpeed spd)) (emit (LoggingInfo (ValidAcc acc)) wi)))"
    using i ri r p by (simp add: run_epoch_def)
  show "outline (trace (snd (run_epoch a env q model criterion ep w)))
           = outline (trace w)
             @ (case pass_means env model criterion (clock_reads w) q of
                  (valid_acc, valid_obj, valid_speed) \<Rightarrow>
                    [InferCall, AccLine valid_acc, SpeedLine valid_speed,
                     ScalarWritten ''val_loss'' valid_obj ep])"
    using o by (simp add: e p emit_def outline_def)
  show "forwards (trace (snd (run_epoch a env q model criterion ep w)))
           = forwards (trace w) @ map (\<lambda>b. (fst b, False)) q"
    using f by (simp add: e emit_def forwards_def)
  show "clock_reads (snd (run_epoch a env q model criterion ep w))
           = clock_reads w + 2 * length q"
    using c by (simp add: e emit_def)
qed

lemma epoch_loop_Inr:
  "j - i = n \<Longrightarrow> fst (epoch_loop a env q model criterion [i..<j] w) = Inr u \<Longrightarrow>
   clock_reads w = 2 * length q * i \<Longrightarrow>
   outline (trace (snd (epoch_loop a env q model criterion [i..<j] w)))
     = outline (trace w) @ concat (map (epoch_marks env model criterion q) [i..<j])
   \<and> forwards (trace (snd (epoch_loop a env q model criterion [i..<j] w)))
     = forwards (trace w) @ concat (replicate n (map (\<lambda>b. (fst b, False)) q))"
proof (induction n arbitrary: i w)
  case 0
  then have e: "[i..<j] = []" by simp
  show ?case unfolding e by simp
next
  case (Suc n)
  then have ij: "i < j" and n: "j - Suc i = n" by simp_all
  then have u: "[i..<j] = i # [Suc i..<j]" by (simp add: upt_conv_Cons)
  obtain r w1 where r: "run_epoch a env q model criterion i w = (r, w1)"
    by (cases "run_epoch a env q model criterion i w")
  with Suc.prems(2) u obtain u1 where r1: "r = Inr u1" by (cases r) auto
  note e = run_epoch_Inr [of a env q model criterion i w u1]
  from e r r1 Suc.prems(3)
  have o: "outline (trace w1) = outline (trace w) @ epoch_marks env model criterion q i"
    and f: "forwards (trace w1) = forwards (trace w) @ map (\<lambda>b. (fst b, False)) q"
    and c: "clock_reads w1 = 2 * length q * Suc i"
    by (simp_all add: epoch_marks_def)
  from Suc.prems(2) u r r1
  have "fst (epoch_loop a env q model criterion [Suc i..<j] w1) = Inr u" by simp
  from Suc.IH [OF n this c] o f u r r1 show ?case by simp
qed

lemma run_epoch_ok:
  assumes "report_freq a \<noteq> Finite 0" and "\<forall>b\<in>set q. fst b \<noteq> []"
  shows "fst (run_epoch a env q model criterion ep w) = Inr ()"
proof -
  from infer_loop_ok [OF assms, of env model criterion 0 fresh_meters "emit ModelEval w"]
  obtain ms where "fst (infer_loop a env model criterion 0 q fresh_meters (emit ModelEval w))
      = Inr ms" by blast
  then show ?thesis
    by (auto simp: run_epoch_def infer_def infer_meters_def split: prod.splits sum.splits)
qed

lemma epoch_loop_ok:
  assumes "report_freq a \<noteq> Finite 0" and "\<forall>b\<in>set q. fst b \<noteq> []"
  shows "fst (epoch_loop a env q model criterion eps w) = Inr ()"
proof (induction eps arbitrary: w)
  case Nil
  show ?case by simp
next
  case (Cons ep eps)
  from run_epoch_ok [OF assms, of env model criterion ep w] Cons.IH
  show ?case by (auto split: prod.splits sum.splits)
qed

lemma main_start_clear:
  "outline (trace (main_start a env)) = []" "forwards (trace (main_start a env)) = []"
  "clock_reads (main_start a env) = 0"
  by (simp_all add: main_start_def outline_def forwards_def setup_events_def)

lemma main_Inr:
  assumes "fst (main a env) = Inr ()"
  shows "outline (trace (snd (main a env)))
       = concat (map (epoch_marks env (main_model a env) (CrossEntropyLoss env)
                        (snd (preprocess_imagenet env a))) [0..<nat (epochs a)])"
    and "forwards (trace (snd (main a env)))
       = concat (replicate (nat (epochs a))
           (map (\<lambda>b. (fst b, False)) (snd (preprocess_imagenet env a))))"
proof -
  let ?q = "snd (preprocess_imagenet env a)"
  let ?l = "epoch_loop a env ?q (main_model a env) (CrossEntropyLoss env) [0..<nat (epochs a)]
              (main_start a env)"
  from assms have g: "cuda_is_available env"
    by (cases "cuda_is_available env") (simp_all add: main_def)
  obtain r w1 where l: "?l = (r, w1)" by (cases ?l)
  with assms obtain u where r: "r = Inr u" by (cases r) (auto simp: main_gpu [OF g])
  have m: "main a env = (Inr (), emit WriterClose w1)"
    by (simp add: main_gpu [OF g] l r)
  from epoch_loop_Inr [of "nat (epochs a)" 0 "nat (epochs a)" a env ?q "main_model a env"
      "CrossEntropyLoss env" "main_start a env" u] l r main_start_clear [of a env]
  have "outline (trace w1)
       = concat (map (epoch_marks env (main_model a env) (CrossEntropyLoss env) ?q)
           [0..<nat (epochs a)])"
    and "forwards (trace w1)
       = concat (replicate (nat (epochs a)) (map (\<lambda>b. (fst b, False)) ?q))"
    by simp_all
  then show "outline (trace (snd (main a env)))
       = concat (map (epoch_marks env (main_model a env) (CrossEntropyLoss env) ?q)
           [0..<nat (epochs a)])"
    and "forwards (trace (snd (main a env)))
       = concat (replicate (nat (epochs a)) (map (\<lambda>b. (fst b, False)) ?q))"
    by (simp_all add: m emit_def outline_def forwards_def)
qed

text \<open>
  C6 (amended). Whenever \<^verbatim>\<open>main\<close> returns, its loop has run once for each epoch index
  below \<^verbatim>\<open>epochs\<close>, and not at all when \<^verbatim>\<open>epochs\<close> is zero or negative: each
  iteration calls \<^verbatim>\<open>infer\<close> once on the same queue (one forward pass for each batch),
  logs the top-1 accuracy and the speed that this call returned and writes the loss it
  returned as the scalar \<^verbatim>\<open>val_loss\<close> of its epoch index. \<^verbatim>\<open>main\<close> returns when a
  GPU is available, the frequency is not zero and no batch is empty, and also when a GPU
  is available and there is no epoch to run; an exception out of \<^verbatim>\<open>infer\<close> ends the
  loop at once.
\<close>

theorem main_runs_epochs_times:
  "(fst (main a env) = Inr () \<longrightarrow>
      outline (trace (snd (main a env)))
        = concat (map (epoch_marks env (main_model a env) (CrossEntropyLoss env)
                         (snd (preprocess_imagenet env a))) [0..<nat (epochs a)])
      \<and> forwards (trace (snd (main a env)))
        = concat (replicate (nat (epochs a))
            (map (\<lambda>b. (fst b, False)) (snd (preprocess_imagenet env a)))))
   \<and> (cuda_is_available env \<and> report_freq a \<noteq> Finite 0
        \<and> (\<forall>b\<in>set (snd (preprocess_imagenet env a)). fst b \<noteq> []) \<longrightarrow>
        fst (main a env) = Inr ())
   \<and> (cuda_is_available env \<and> epochs a \<le> 0 \<longrightarrow>
        fst (main a env) = Inr () \<and> outline (trace (snd (main a env))) = []
        \<and> forwards (trace (snd (main a env))) = [])"
proof (intro conjI impI)
  assume "fst (main a env) = Inr ()"
  then show "outline (trace (snd (main a env)))
        = concat (map (epoch_marks env (main_model a env) (CrossEntropyLoss env)
                         (snd (preprocess_imagenet env a))) [0..<nat (epochs a)])"
    and "forwards (trace (snd (main a env)))
        = concat (replicate (nat (epochs a))
            (map (\<lambda>b. (fst b, False)) (snd (preprocess_imagenet env a))))"
    by (rule main_Inr)+
next
  assume h: "cuda_is_available env \<and> report_freq a \<noteq> Finite 0
        \<and> (\<forall>b\<in>set (snd (preprocess_imagenet env a)). fst b \<noteq> [])"
  then have g: "cuda_is_available env" and f: "report_freq a \<noteq> Finite 0"
    and n: "\<forall>b\<in>set (snd (preprocess_imagenet env a)). fst b \<noteq> []" by simp_all
  from epoch_loop_ok [OF f n, of env "main_model a env" "CrossEntropyLoss env"
      "[0..<nat (epochs a)]" "main_start a env"]
  show "fst (main a env) = Inr ()"
    by (auto simp: main_gpu [OF g] split: prod.splits sum.splits)
next
  assume h: "cuda_is_available env \<and> epochs a \<le> 0"
  then have g: "cuda_is_available env" and z: "nat (epochs a) = 0" by simp_all
  show 1: "fst (main a env) = Inr ()"
    by (simp add: main_gpu [OF g] z)
  from main_Inr [OF 1] z
  show "outline (trace (snd (main a env))) = []" and "forwards (trace (snd (main a env))) = []"
    by simp_all
qed

theorem main_runs_epochs_times_witness:
  "cuda_is_available demo_env \<and> report_freq two_epoch_args \<noteq> Finite 0
   \<and> snd (preprocess_imagenet demo_env two_epoch_args) = [([1, 2], [10, 20]), ([3], [40])]
   \<and> fst ([1::nat, 2], [10::nat, 20]) \<noteq> [] \<and> fst ([3::nat], [40::nat]) \<noteq> []
   \<and> fst (main two_epoch_args demo_env) = Inr ()
   \<and> outline (trace (snd (main two_epoch_args demo_env)))
       = [InferCall, AccLine (100 / 3), SpeedLine (1 / 4), ScalarWritten ''val_loss'' (3 / 4) 0,
          InferCall, AccLine (100 / 3), SpeedLine (11 / 12),
          ScalarWritten ''val_loss'' (3 / 4) 1]
   \<and> forwards (trace (snd (main two_epoch_args demo_env)))
       = [([1, 2], False), ([3], False), ([1, 2], False), ([3], False)]
   \<and> epochs (default_args\<lparr>epochs := 0\<rparr>) \<le> 0
   \<and> fst (main (default_args\<lparr>epochs := 0\<rparr>) demo_env) = Inr ()
   \<and> forwards (trace (snd (main (default_args\<lparr>epochs := 0\<rparr>) demo_env))) = []"
proof -
  have a: "report_freq two_epoch_args \<noteq> Finite 0" "epochs two_epoch_args = 2"
    by (simp_all add: two_epoch_args_def default_args_def)
  have q: "snd (preprocess_imagenet demo_env two_epoch_args) = demo_queue"
    by (simp add: demo_env_def)
  have n: "\<forall>b\<in>set (snd (preprocess_imagenet demo_env two_epoch_args)). fst b \<noteq> []"
    using demo_nonempty by (simp add: q)
  have u: "[0..<2] = [0, Suc 0]" by (simp add: upt_rec)
  note t = main_runs_epochs_times [of two_epoch_args demo_env]
  from t demo_gpu a n have r: "fst (main two_epoch_args demo_env) = Inr ()" by blast
  have m0: "epoch_marks demo_env (main_model two_epoch_args demo_env) (CrossEntropyLoss demo_env)
              demo_queue 0
            = [InferCall, AccLine (100 / 3), SpeedLine (1 / 4),
               ScalarWritten ''val_loss'' (3 / 4) 0]"
    by (simp add: epoch_marks_def pass_means_def weighted_mean_def top1_fed_def loss_fed_def
        speed_of_def main_model_def demo_queue_def demo_env_def round_vals)
  have m1: "epoch_marks demo_env (main_model two_epoch_args demo_env) (CrossEntropyLoss demo_env)
              demo_queue (Suc 0)
            = [InferCall, AccLine (100 / 3), SpeedLine (11 / 12),
               ScalarWritten ''val_loss'' (3 / 4) 1]"
    by (simp add: epoch_marks_def pass_means_def weighted_mean_def top1_fed_def loss_fed_def
        speed_of_def main_model_def demo_queue_def demo_env_def round_vals)
  from t r have o: "outline (trace (snd (main two_epoch_args demo_env)))
        = concat (map (epoch_marks demo_env (main_model two_epoch_args demo_env)
                         (CrossEntropyLoss demo_env) demo_queue) [0..<2])"
    and f: "forwards (trace (snd (main two_epoch_args demo_env)))
        = concat (replicate 2 (map (\<lambda>b. (fst b, False)) demo_queue))"
    by (simp_all add: a q)
  have z: "epochs (default_args\<lparr>epochs := 0\<rparr>) \<le> 0" by simp
  from main_runs_epochs_times [of "default_args\<lparr>epochs := 0\<rparr>" demo_env] demo_gpu z
  have e: "fst (main (default_args\<lparr>epochs := 0\<rparr>) demo_env) = Inr ()"
    "forwards (trace (snd (main (default_args\<lparr>epochs := 0\<rparr>) demo_env))) = []"
    by blast+
  from o have o': "outline (trace (snd (main two_epoch_args demo_env)))
       = [InferCall, AccLine (100 / 3), SpeedLine (1 / 4), ScalarWritten ''val_loss'' (3 / 4) 0,
          InferCall, AccLine (100 / 3), SpeedLine (11 / 12),
          ScalarWritten ''val_loss'' (3 / 4) 1]"
    by (simp add: u m0 m1)
  from f have f': "forwards (trace (snd (main two_epoch_args demo_env)))
       = [([1, 2], False), ([3], False), ([1, 2], False), ([3], False)]"
    by (simp add: demo_queue_def numeral_2_eq_2)
  from demo_gpu a r o' f' e show ?thesis
    by (simp add: q demo_queue_def)
qed

text \<open>
  The claim as stated fails: with two epochs and a zero frequency, \<^verbatim>\<open>main\<close> ends in
  the division error of the first batch of the first epoch, after one call of
  \<^verbatim>\<open>infer\<close> and one forward pass, with nothing logged for the epoch.
\<close>

theorem zero_frequency_ends_first_epoch:
  "epochs zero_freq_two_epoch_args = 2
   \<and> fst (main zero_freq_two_epoch_args demo_env) = Inl (ZeroDivisionError ReportModulo)
   \<and> outline (trace (snd (main zero_freq_two_epoch_args demo_env))) = [InferCall]
   \<and> forwards (trace (snd (main zero_freq_two_epoch_args demo_env))) = [([1, 2], False)]"
proof -
  have a: "report_freq zero_freq_two_epoch_args = Finite 0" "epochs zero_freq_two_epoch_args = 2"
    by (simp_all add: zero_freq_two_epoch_args_def default_args_def)
  have u: "[0..<2] = [0, Suc 0]" by (simp add: upt_rec)
  show ?thesis
    unfolding main_gpu [OF demo_gpu]
    by (simp add: a u demo_defs report_due_zero outline_def forwards_def)
qed

end
